theory Spec2Isabelle
  imports Complex_Main "HOL-Library.Word"
begin

section \<open>The N-up layout engine of MochiMaker (src/main.py)\<close>

text \<open>
  This theory embeds the layout and whitespace-trim engine of \<^verbatim>\<open>src/main.py\<close>:
  \<^verbatim>\<open>mm_to_pt\<close>, \<^verbatim>\<open>paper_size_pt\<close>, \<^verbatim>\<open>choose_auto_grid\<close>, \<^verbatim>\<open>nonwhite_bbox_pixmap\<close>,
  \<^verbatim>\<open>estimate_content_clip\<close> and \<^verbatim>\<open>build_nup_from_multiple\<close>.

  Python's \<^verbatim>\<open>float\<close> lengths are modelled by \<^typ>\<open>real\<close> (exact arithmetic, no rounding),
  Python's \<^verbatim>\<open>int\<close> by \<^typ>\<open>int\<close>, counters that only count up from zero by \<^typ>\<open>nat\<close>,
  the bytes of a pixmap by \<^typ>\<open>8 word\<close>. Exceptions are values of \<open>py_error\<close>; the two
  that carry a message here are \<^verbatim>\<open>ValueError\<close> and \<^verbatim>\<open>RuntimeError\<close>.
\<close>

subsection \<open>Units and paper sizes\<close>

datatype py_error =
  ZeroDivisionError | IndexError | AttributeError | ValueError string | FileDataError
  | RuntimeError string

definition PT_PER_INCH :: real where
  "PT_PER_INCH = 72"

definition MM_PER_INCH :: real where
  "MM_PER_INCH = 254 / 10"

definition mm_to_pt :: "real \<Rightarrow> real" where
  "mm_to_pt mm = mm / MM_PER_INCH * PT_PER_INCH"

definition sizes_mm :: "string \<Rightarrow> (real \<times> real) option" where
  "sizes_mm name =
     (if name = ''A4'' then Some (210, 297)
      else if name = ''A3'' then Some (297, 420)
      else if name = ''Letter'' then Some (2159 / 10, 2794 / 10)
      else None)"

definition paper_size_pt :: "string \<Rightarrow> bool \<Rightarrow> real \<times> real" where
  "paper_size_pt name landscape =
     (let name' = (if sizes_mm name = None then ''A4'' else name);
          (w_mm, h_mm) = (case sizes_mm name' of Some p \<Rightarrow> p | None \<Rightarrow> (210, 297));
          (w_mm', h_mm') = (if landscape then (h_mm, w_mm) else (w_mm, h_mm))
      in (mm_to_pt w_mm', mm_to_pt h_mm'))"

subsection \<open>Parameters\<close>

record LayoutParams =
  rows :: int
  cols :: int
  margin_mm :: real
  gap_mm :: real
  auto_readable :: bool
  min_slide_w_mm :: real

record BuildParams =
  paper :: string
  landscape :: bool
  layout :: LayoutParams
  trim_whitespace :: bool
  trim_threshold :: int
  draw_page_numbers :: bool
  draw_cell_indices :: bool
  cell_index_font_pt :: real
  page_number_font_pt :: real

subsection \<open>Grid chooser\<close>

definition CANDIDATE_GRIDS :: "(int \<times> int) list" where
  "CANDIDATE_GRIDS =
     [(1,1),(1,2),(2,1),(2,2),
      (2,3),(3,2),
      (3,3),
      (2,4),(4,2),
      (3,4),(4,3),
      (4,4)]"

text \<open>The expression \<^verbatim>\<open>(usable_w - (c-1)*gap_pt)/c\<close>, which the source writes out three
  times (for the candidate, for the current best, and again in the compositor).\<close>

definition cell_width :: "real \<Rightarrow> real \<Rightarrow> int \<Rightarrow> real" where
  "cell_width usable_w gap_pt c = (usable_w - (of_int c - 1) * gap_pt) / of_int c"

text \<open>One iteration of the loop \<^verbatim>\<open>for r,c in CANDIDATE_GRIDS\<close>; the loop variable
  \<^verbatim>\<open>best\<close> is the state.\<close>

definition grid_step :: "real \<Rightarrow> real \<Rightarrow> real \<Rightarrow> int \<times> int \<Rightarrow> int \<times> int \<Rightarrow> int \<times> int" where
  "grid_step usable_w gap_pt min_w best rc =
     (let r = fst rc; c = snd rc;
          cell_w = cell_width usable_w gap_pt c
      in if cell_w \<ge> min_w then
           if r * c > fst best * snd best then (r, c)
           else if r * c = fst best * snd best then
             (let bw = cell_width usable_w gap_pt (snd best)
              in if cell_w > bw then (r, c) else best)
           else best
         else best)"

definition choose_auto_grid :: "real \<times> real \<Rightarrow> LayoutParams \<Rightarrow> int \<times> int" where
  "choose_auto_grid paper_pt layout_p =
     (let margin_pt = mm_to_pt (margin_mm layout_p);
          gap_pt = mm_to_pt (gap_mm layout_p);
          page_w = fst paper_pt;
          usable_w = page_w - 2 * margin_pt
      in foldl (grid_step usable_w gap_pt (mm_to_pt (min_slide_w_mm layout_p))) (1, 1) CANDIDATE_GRIDS)"

text \<open>The notions the grid claims speak about: the usable width and the cell width of a
  column count for a paper and layout, whether a candidate qualifies, and its slot count.\<close>

definition usable_width :: "real \<times> real \<Rightarrow> LayoutParams \<Rightarrow> real" where
  "usable_width paper_pt layout_p = fst paper_pt - 2 * mm_to_pt (margin_mm layout_p)"



definition slot_count :: "int \<times> int \<Rightarrow> int" where
  "slot_count rc = fst rc * snd rc"

subsection \<open>Rectangles (\<^verbatim>\<open>fitz.Rect\<close>)\<close>

text \<open>
  \<^verbatim>\<open>fitz.Rect\<close> belongs to the PDF library, not to the repository. Its operations are
  modelled after the library's documented meaning: \<^verbatim>\<open>+\<close> adds coordinate by coordinate,
  \<^verbatim>\<open>&\<close> is the intersection (the larger of the left and top edges, the smaller of the
  right and bottom edges), and a rectangle is false as a condition exactly when all four
  coordinates are zero. A rectangle is empty when its right edge is not right of its left
  edge or its bottom edge not below its top edge (\<^verbatim>\<open>Rect.is_empty\<close>).

  \<^verbatim>\<open>fitz.Matrix\<close> has the methods \<^verbatim>\<open>concat\<close>, \<^verbatim>\<open>invert\<close>, \<^verbatim>\<open>norm\<close>, \<^verbatim>\<open>prerotate\<close>,
  \<^verbatim>\<open>prescale\<close>, \<^verbatim>\<open>preshear\<close> and \<^verbatim>\<open>pretranslate\<close>, and no method \<^verbatim>\<open>transform_rect\<close>
  (a rectangle is transformed by \<^verbatim>\<open>Rect.transform(matrix)\<close> or \<^verbatim>\<open>rect * matrix\<close>). The
  attribute lookup \<^verbatim>\<open>inv.transform_rect\<close> therefore raises \<^verbatim>\<open>AttributeError\<close>, whatever
  the matrix and the rectangle are.
\<close>

record rect =
  r_x0 :: real
  r_y0 :: real
  r_x1 :: real
  r_y1 :: real

definition Rect :: "real \<Rightarrow> real \<Rightarrow> real \<Rightarrow> real \<Rightarrow> rect" where
  "Rect a b c d = \<lparr>r_x0 = a, r_y0 = b, r_x1 = c, r_y1 = d\<rparr>"

definition rect_add :: "rect \<Rightarrow> rect \<Rightarrow> rect" where
  "rect_add a b = Rect (r_x0 a + r_x0 b) (r_y0 a + r_y0 b) (r_x1 a + r_x1 b) (r_y1 a + r_y1 b)"

definition rect_and :: "rect \<Rightarrow> rect \<Rightarrow> rect" where
  "rect_and a b = Rect (max (r_x0 a) (r_x0 b)) (max (r_y0 a) (r_y0 b))
                       (min (r_x1 a) (r_x1 b)) (min (r_y1 a) (r_y1 b))"

definition rect_bool :: "rect \<Rightarrow> bool" where
  "rect_bool a \<longleftrightarrow> \<not> (r_x0 a = 0 \<and> r_y0 a = 0 \<and> r_x1 a = 0 \<and> r_y1 a = 0)"

definition rect_is_empty :: "rect \<Rightarrow> bool" where
  "rect_is_empty a \<longleftrightarrow> r_x0 a \<ge> r_x1 a \<or> r_y0 a \<ge> r_y1 a"

type_synonym Matrix = "real \<times> real"

definition Matrix :: "real \<Rightarrow> real \<Rightarrow> Matrix" where
  "Matrix sx sy = (sx, sy)"

definition transform_rect :: "Matrix \<Rightarrow> rect \<Rightarrow> py_error + rect" where
  "transform_rect m a = Inl AttributeError"

subsection \<open>Source documents\<close>

text \<open>
  A pixmap as \<^verbatim>\<open>nonwhite_bbox_pixmap\<close> reads it: the flag \<^verbatim>\<open>alpha\<close>, \<^verbatim>\<open>width\<close>,
  \<^verbatim>\<open>height\<close>, the number \<^verbatim>\<open>n\<close> of bytes per pixel and the bytes \<^verbatim>\<open>samples\<close>.
  A source page has its native rectangle \<^verbatim>\<open>rect\<close> and the outcome of
  \<^verbatim>\<open>get_pixmap(matrix=Matrix(1,1), alpha=False)\<close>, which is a pixmap or an exception.
  A file system maps a path to the document \<^verbatim>\<open>fitz.open\<close> returns, or to nothing
  when \<^verbatim>\<open>fitz.open\<close> raises.
\<close>

record Pixmap =
  pix_alpha :: bool
  pix_width :: nat
  pix_height :: nat
  pix_n :: nat
  pix_samples :: "8 word list"

record src_page =
  page_rect :: rect
  get_pixmap :: "py_error + Pixmap"

type_synonym src_doc = "src_page list"

type_synonym file_system = "string \<Rightarrow> src_doc option"

definition fitz_open :: "file_system \<Rightarrow> string \<Rightarrow> py_error + src_doc" where
  "fitz_open fs path = (case fs path of None \<Rightarrow> Inl FileDataError | Some d \<Rightarrow> Inr d)"

subsection \<open>Content-bounds estimator\<close>

definition py_index :: "'a list \<Rightarrow> nat \<Rightarrow> py_error + 'a" where
  "py_index xs i = (if i < length xs then Inr (xs ! i) else Inl IndexError)"

text \<open>A \<^verbatim>\<open>for\<close> loop whose body may raise: the first exception ends the loop.\<close>

fun for_each :: "'i list \<Rightarrow> ('i \<Rightarrow> 's \<Rightarrow> py_error + 's) \<Rightarrow> 's \<Rightarrow> py_error + 's" where
  "for_each [] body s = Inr s"
| "for_each (i # rest) body s =
     (case body i s of Inl e \<Rightarrow> Inl e | Inr s' \<Rightarrow> for_each rest body s')"

text \<open>\<^verbatim>\<open>fitz.Pixmap(pix, 0)\<close>: the copy without the alpha byte, the last byte of
  every pixel.\<close>

definition drop_alpha :: "Pixmap \<Rightarrow> Pixmap" where
  "drop_alpha pix =
     pix\<lparr>pix_alpha := False, pix_n := pix_n pix - 1,
         pix_samples := map snd (filter (\<lambda>(i, b). i mod pix_n pix \<noteq> pix_n pix - 1)
                                        (enumerate 0 (pix_samples pix)))\<rparr>"

text \<open>The four running bounds \<^verbatim>\<open>xmin, ymin, xmax, ymax\<close>.\<close>

type_synonym bbox_acc = "int \<times> int \<times> int \<times> int"

definition mark_pixel :: "nat \<Rightarrow> nat \<Rightarrow> bbox_acc \<Rightarrow> bbox_acc" where
  "mark_pixel x y acc =
     (case acc of (xmin, ymin, xmax, ymax) \<Rightarrow>
        (if int x < xmin then int x else xmin,
         if int y < ymin then int y else ymin,
         if int x > xmax then int x else xmax,
         if int y > ymax then int y else ymax))"

text \<open>The minimum channel value the scan computes at column \<open>x\<close> of a row slice, or the
  \<^verbatim>\<open>IndexError\<close> of a read past the slice.\<close>

definition pixel_min :: "8 word list \<Rightarrow> nat \<Rightarrow> nat \<Rightarrow> py_error + int" where
  "pixel_min row ncomp x =
     (case py_index row (x * ncomp) of Inl e \<Rightarrow> Inl e | Inr r \<Rightarrow>
      (case py_index row (x * ncomp + 1) of Inl e \<Rightarrow> Inl e | Inr g \<Rightarrow>
       (case py_index row (x * ncomp + 2) of Inl e \<Rightarrow> Inl e | Inr b \<Rightarrow>
          Inr (int (min (unat r) (min (unat g) (unat b)))))))"

definition scan_pixel :: "8 word list \<Rightarrow> nat \<Rightarrow> int \<Rightarrow> nat \<Rightarrow> nat \<Rightarrow> bbox_acc \<Rightarrow> py_error + bbox_acc" where
  "scan_pixel row ncomp threshold y x acc =
     (case pixel_min row ncomp x of Inl e \<Rightarrow> Inl e
      | Inr m \<Rightarrow> Inr (if m < threshold then mark_pixel x y acc else acc))"

definition row_slice :: "Pixmap \<Rightarrow> nat \<Rightarrow> 8 word list" where
  "row_slice pix y =
     (let w = pix_width pix; ncomp = pix_n pix; row_start = y * w * ncomp
      in take (w * ncomp) (drop row_start (pix_samples pix)))"

definition scan_row :: "Pixmap \<Rightarrow> int \<Rightarrow> nat \<Rightarrow> bbox_acc \<Rightarrow> py_error + bbox_acc" where
  "scan_row pix threshold y acc =
     for_each [0 ..< pix_width pix] (scan_pixel (row_slice pix y) (pix_n pix) threshold y) acc"

text \<open>The body of the \<^verbatim>\<open>try\<close> block of \<^verbatim>\<open>nonwhite_bbox_pixmap\<close>, and the function with
  its \<^verbatim>\<open>except Exception: return None\<close>.\<close>

definition nonwhite_bbox_try :: "Pixmap \<Rightarrow> int \<Rightarrow> py_error + rect option" where
  "nonwhite_bbox_try pix0 threshold =
     (let pix = (if pix_alpha pix0 then drop_alpha pix0 else pix0);
          w = pix_width pix; h = pix_height pix
      in case for_each [0 ..< h] (scan_row pix threshold) (int w, int h, -1, -1) of
           Inl e \<Rightarrow> Inl e
         | Inr (xmin, ymin, xmax, ymax) \<Rightarrow>
             if xmax < 0 then Inr None
             else Inr (Some (Rect (of_int xmin) (of_int ymin) (of_int (xmax + 1)) (of_int (ymax + 1)))))"

definition nonwhite_bbox_pixmap :: "Pixmap \<Rightarrow> int \<Rightarrow> rect option" where
  "nonwhite_bbox_pixmap pix threshold =
     (case nonwhite_bbox_try pix threshold of Inl e \<Rightarrow> None | Inr res \<Rightarrow> res)"

definition estimate_content_clip_try :: "src_page \<Rightarrow> int \<Rightarrow> py_error + rect" where
  "estimate_content_clip_try src_page threshold =
     (let target_dpi = (72 :: real);
          zoom = target_dpi / 72
      in case get_pixmap src_page of
           Inl e \<Rightarrow> Inl e
         | Inr pix \<Rightarrow>
            (case nonwhite_bbox_pixmap pix threshold of
               None \<Rightarrow> Inr (page_rect src_page)
             | Some bbox_px \<Rightarrow>
                 if \<not> rect_bool bbox_px then Inr (page_rect src_page)
                 else
                   let inv = Matrix (1 / zoom) (1 / zoom)
                   in case transform_rect inv bbox_px of
                        Inl e \<Rightarrow> Inl e
                      | Inr rect_pt \<Rightarrow>
                          let rect_pt' = rect_add rect_pt (Rect (-2) (-2) 2 2)
                          in Inr (rect_and rect_pt' (page_rect src_page))))"

definition estimate_content_clip :: "src_page \<Rightarrow> int \<Rightarrow> rect" where
  "estimate_content_clip src_page threshold =
     (case estimate_content_clip_try src_page threshold of
        Inl e \<Rightarrow> page_rect src_page
      | Inr r \<Rightarrow> r)"

subsection \<open>Page compositor\<close>

text \<open>
  The output document is the list of its pages. A page records its size and, in the order
  of the calls, what was drawn on it: \<^verbatim>\<open>show_pdf_page(rect, src, pno, clip=...)\<close> with the
  destination rectangle, the path of the source, the page number and the clip rectangle,
  and \<^verbatim>\<open>insert_textbox(rect, text, fontsize=...)\<close> (font name, alignment and colour are
  the same constants in both calls of the source).

  Both calls belong to the PDF library and may raise: \<^verbatim>\<open>show_pdf_page\<close> raises
  \<^verbatim>\<open>ValueError\<close> for an empty destination rectangle, for a source page without contents
  and for an empty clip, \<^verbatim>\<open>insert_textbox\<close> for an empty text rectangle, and either may
  fail inside the library. Whether a call raises is a function of its arguments, which the
  library record \<open>fitz_lib\<close> holds: \<open>None\<close> when the call goes through, the exception
  otherwise. Every property below is proved for an arbitrary library.
\<close>

datatype draw_op =
    ShowPdfPage rect string nat rect
  | InsertTextbox rect string real

record out_page =
  pg_width :: real
  pg_height :: real
  pg_ops :: "draw_op list"

record fitz_lib =
  show_pdf_page_raises :: "rect \<Rightarrow> string \<Rightarrow> nat \<Rightarrow> src_page \<Rightarrow> rect \<Rightarrow> py_error option"
  insert_textbox_raises :: "rect \<Rightarrow> string \<Rightarrow> real \<Rightarrow> py_error option"

definition new_page :: "real \<Rightarrow> real \<Rightarrow> out_page" where
  "new_page w h = \<lparr>pg_width = w, pg_height = h, pg_ops = []\<rparr>"

definition draw :: "draw_op \<Rightarrow> out_page \<Rightarrow> out_page" where
  "draw op pg = pg\<lparr>pg_ops := pg_ops pg @ [op]\<rparr>"

definition show_pdf_page ::
    "fitz_lib \<Rightarrow> out_page \<Rightarrow> rect \<Rightarrow> string \<Rightarrow> nat \<Rightarrow> src_page \<Rightarrow> rect \<Rightarrow> py_error + out_page" where
  "show_pdf_page lib page dest path pno sp clip =
     (case show_pdf_page_raises lib dest path pno sp clip of
        Some e \<Rightarrow> Inl e
      | None \<Rightarrow> Inr (draw (ShowPdfPage dest path pno clip) page))"

definition insert_textbox ::
    "fitz_lib \<Rightarrow> out_page \<Rightarrow> rect \<Rightarrow> string \<Rightarrow> real \<Rightarrow> py_error + out_page" where
  "insert_textbox lib page r txt fontsize =
     (case insert_textbox_raises lib r txt fontsize of
        Some e \<Rightarrow> Inl e
      | None \<Rightarrow> Inr (draw (InsertTextbox r txt fontsize) page))"

text \<open>Python's \<^verbatim>\<open>str\<close> of a non-negative integer, for the f-strings.\<close>

definition digit_char :: "nat \<Rightarrow> char" where
  "digit_char d = char_of (48 + d)"

fun str_nat :: "nat \<Rightarrow> string" where
  "str_nat n = (if n < 10 then [digit_char n] else str_nat (n div 10) @ [digit_char (n mod 10)])"

declare str_nat.simps [simp del]

text \<open>The nested function \<^verbatim>\<open>draw_page_number_footer\<close>; \<^verbatim>\<open>page.rect\<close> of an output page
  is \<open>(0, 0, width, height)\<close>.\<close>

definition footer_text :: "nat \<Rightarrow> nat \<Rightarrow> string" where
  "footer_text page_idx1 total_pages = str_nat page_idx1 @ '' / '' @ str_nat total_pages"

definition footer_rect :: "out_page \<Rightarrow> rect" where
  "footer_rect page =
     (let pad = mm_to_pt 6; box_w = mm_to_pt 40; box_h = mm_to_pt 10
      in Rect (pg_width page - box_w - pad) (pg_height page - box_h - pad)
              (pg_width page - pad) (pg_height page - pad))"

definition draw_page_number_footer ::
    "fitz_lib \<Rightarrow> BuildParams \<Rightarrow> out_page \<Rightarrow> nat \<Rightarrow> nat \<Rightarrow> py_error + out_page" where
  "draw_page_number_footer lib params page page_idx1 total_pages =
     (if \<not> draw_page_numbers params then Inr page
      else insert_textbox lib page (footer_rect page) (footer_text page_idx1 total_pages)
             (page_number_font_pt params))"

text \<open>The footer pass \<^verbatim>\<open>for i in range(total_out): ...\<close> with \<^verbatim>\<open>total_out = len(out)\<close>,
  which the source has twice: at the early return and after the placement loops.
  \<open>stamp_from\<close> is the loop from page index \<open>i\<close> on; the first exception ends it.\<close>

fun stamp_from ::
    "fitz_lib \<Rightarrow> BuildParams \<Rightarrow> nat \<Rightarrow> nat \<Rightarrow> out_page list \<Rightarrow> py_error + out_page list" where
  "stamp_from lib params total_out i [] = Inr []"
| "stamp_from lib params total_out i (page # rest) =
     (case draw_page_number_footer lib params page (i + 1) total_out of
        Inl e \<Rightarrow> Inl e
      | Inr page' \<Rightarrow>
         (case stamp_from lib params total_out (i + 1) rest of
            Inl e \<Rightarrow> Inl e
          | Inr rest' \<Rightarrow> Inr (page' # rest')))"

definition stamp_footers :: "fitz_lib \<Rightarrow> BuildParams \<Rightarrow> out_page list \<Rightarrow> py_error + out_page list" where
  "stamp_footers lib params out_doc =
     (let total_out = length out_doc
      in stamp_from lib params total_out 0 out_doc)"

text \<open>The local variables of \<^verbatim>\<open>build_nup_from_multiple\<close> that stay fixed during the
  placement loops, and those the loops update. \<^verbatim>\<open>out_page\<close> is \<^verbatim>\<open>None\<close> until the first
  \<^verbatim>\<open>out.new_page\<close> and the last page of \<^verbatim>\<open>out\<close> from then on.\<close>

record build_env =
  e_params :: BuildParams
  e_stop_after_pages :: "int option"
  e_page_w :: real
  e_page_h :: real
  e_cols :: int
  e_margin :: real
  e_gap :: real
  e_cell_w :: real
  e_cell_h :: real
  e_total_slots :: int

record build_state =
  out :: "out_page list"
  slot_used :: int
  global_page_index :: nat

text \<open>The loop body goes on with the updated variables, executes \<^verbatim>\<open>return out\<close>, or
  raises; for the last two the flag says whether the current source document has been
  closed by then.\<close>

datatype loop_res =
    Continue build_state
  | Return bool "out_page list"
  | Raise bool py_error

text \<open>\<^verbatim>\<open>Document.close()\<close> of the PDF library: closing a document that is already closed
  raises \<^verbatim>\<open>ValueError("document closed")\<close>. The argument is the document's
  \<^verbatim>\<open>is_closed\<close> flag, the result the new flag.\<close>

definition doc_close :: "bool \<Rightarrow> py_error + bool" where
  "doc_close is_closed = (if is_closed then Inl (ValueError ''document closed'') else Inr True)"

text \<open>A method call on the variable \<^verbatim>\<open>out_page\<close>: on \<^verbatim>\<open>None\<close> the attribute lookup
  raises, otherwise the call acts on the last page of \<^verbatim>\<open>out\<close>.\<close>

definition on_out_page ::
    "(out_page \<Rightarrow> py_error + out_page) \<Rightarrow> out_page list \<Rightarrow> py_error + out_page list" where
  "on_out_page call out_doc =
     (case out_doc of [] \<Rightarrow> Inl AttributeError
      | _ \<Rightarrow> (case call (last out_doc) of
                Inl e \<Rightarrow> Inl e
              | Inr page' \<Rightarrow> Inr (butlast out_doc @ [page'])))"

definition slot_rect :: "build_env \<Rightarrow> int \<Rightarrow> rect" where
  "slot_rect env slot =
     (let r = slot div e_cols env;
          c = slot mod e_cols env;
          x0 = e_margin env + of_int c * (e_cell_w env + e_gap env);
          y0 = e_margin env + of_int r * (e_cell_h env + e_gap env)
      in Rect x0 y0 (x0 + e_cell_w env) (y0 + e_cell_h env))"

definition cell_index_rect :: "rect \<Rightarrow> rect" where
  "cell_index_rect r =
     (let pad = mm_to_pt (25 / 10); box_w = mm_to_pt 10; box_h = mm_to_pt 6
      in Rect (r_x1 r - box_w - pad) (r_y0 r + pad) (r_x1 r - pad) (r_y0 r + pad + box_h))"

text \<open>The body of \<^verbatim>\<open>for pno in range(len(src))\<close>. At the early return the source is
  closed first; an exception of the footer pass then leaves the loop with the source
  closed.\<close>

definition place_page ::
    "fitz_lib \<Rightarrow> build_env \<Rightarrow> string \<Rightarrow> nat \<Rightarrow> src_page \<Rightarrow> build_state \<Rightarrow> loop_res" where
  "place_page lib env path pno sp s =
     (let params = e_params env;
          out1 = (if slot_used s = 0 then out s @ [new_page (e_page_w env) (e_page_h env)] else out s)
      in if e_cols env = 0 then Raise False ZeroDivisionError
         else
           let dest = slot_rect env (slot_used s);
               clip_rect = (if trim_whitespace params
                            then estimate_content_clip sp (trim_threshold params)
                            else page_rect sp)
           in case on_out_page (\<lambda>page. show_pdf_page lib page dest path pno sp clip_rect) out1 of
                Inl e \<Rightarrow> Raise False e
              | Inr out2 \<Rightarrow>
                 (let gpi = global_page_index s + 1
                  in case (if draw_cell_indices params
                           then on_out_page
                                  (\<lambda>page. insert_textbox lib page (cell_index_rect dest) (str_nat gpi)
                                             (cell_index_font_pt params)) out2
                           else Inr out2) of
                       Inl e \<Rightarrow> Raise False e
                     | Inr out3 \<Rightarrow>
                        (let su = slot_used s + 1
                         in if su \<ge> e_total_slots env then
                              (if (case e_stop_after_pages env of None \<Rightarrow> False
                                   | Some k \<Rightarrow> int (length out3) \<ge> k)
                               then (case doc_close False of
                                       Inl e \<Rightarrow> Raise False e
                                     | Inr src_closed \<Rightarrow>
                                        (case stamp_footers lib params out3 of
                                           Inl e \<Rightarrow> Raise src_closed e
                                         | Inr d \<Rightarrow> Return src_closed d))
                               else Continue \<lparr>out = out3, slot_used = 0, global_page_index = gpi\<rparr>)
                            else Continue \<lparr>out = out3, slot_used = su, global_page_index = gpi\<rparr>)))"

fun place_pages ::
    "fitz_lib \<Rightarrow> build_env \<Rightarrow> string \<Rightarrow> (nat \<times> src_page) list \<Rightarrow> build_state \<Rightarrow> loop_res" where
  "place_pages lib env path [] s = Continue s"
| "place_pages lib env path ((pno, sp) # rest) s =
     (case place_page lib env path pno sp s of
        Raise src_closed e \<Rightarrow> Raise src_closed e
      | Return src_closed d \<Rightarrow> Return src_closed d
      | Continue s' \<Rightarrow> place_pages lib env path rest s')"

text \<open>The loop \<^verbatim>\<open>for path in src_files\<close>: a path that \<^verbatim>\<open>fitz.open\<close> rejects is skipped
  by \<^verbatim>\<open>continue\<close>. The inner loop runs in \<^verbatim>\<open>try: ... finally: src.close()\<close>: however
  the inner loop ends, by running out of pages, by \<^verbatim>\<open>return out\<close> or by an exception, the
  document is closed again, and an exception of that \<^verbatim>\<open>close\<close> replaces the pending
  return or exception.\<close>

fun place_files ::
    "fitz_lib \<Rightarrow> file_system \<Rightarrow> build_env \<Rightarrow> string list \<Rightarrow> build_state \<Rightarrow> loop_res" where
  "place_files lib fs env [] s = Continue s"
| "place_files lib fs env (path # rest) s =
     (case fitz_open fs path of
        Inl e \<Rightarrow> place_files lib fs env rest s
      | Inr src \<Rightarrow>
         (let res = place_pages lib env path (enumerate 0 src) s;
              is_closed = (case res of Return src_closed d \<Rightarrow> src_closed
                           | Raise src_closed e \<Rightarrow> src_closed
                           | Continue s' \<Rightarrow> False)
          in case doc_close is_closed of
               Inl e \<Rightarrow> Raise True e
             | Inr src_closed' \<Rightarrow>
                (case res of
                   Raise src_closed e \<Rightarrow> Raise src_closed' e
                 | Return src_closed d \<Rightarrow> Return src_closed' d
                 | Continue s' \<Rightarrow> place_files lib fs env rest s')))"

text \<open>The set-up before the loops. The two divisions raise \<^verbatim>\<open>ZeroDivisionError\<close> when
  the column or row count is zero.\<close>

definition effective_grid :: "BuildParams \<Rightarrow> int \<times> int" where
  "effective_grid params =
     (if auto_readable (layout params)
      then choose_auto_grid (paper_size_pt (paper params) (landscape params)) (layout params)
      else (rows (layout params), cols (layout params)))"

definition make_env :: "BuildParams \<Rightarrow> int option \<Rightarrow> py_error + build_env" where
  "make_env params stop_after_pages =
     (let (page_w, page_h) = paper_size_pt (paper params) (landscape params);
          (rows', cols') = effective_grid params;
          margin = mm_to_pt (margin_mm (layout params));
          gap = mm_to_pt (gap_mm (layout params));
          usable_w = page_w - 2 * margin;
          usable_h = page_h - 2 * margin
      in if cols' = 0 then Inl ZeroDivisionError
         else if rows' = 0 then Inl ZeroDivisionError
         else Inr \<lparr>e_params = params, e_stop_after_pages = stop_after_pages,
                   e_page_w = page_w, e_page_h = page_h, e_cols = cols',
                   e_margin = margin, e_gap = gap,
                   e_cell_w = cell_width usable_w gap cols',
                   e_cell_h = cell_width usable_h gap rows',
                   e_total_slots = rows' * cols'\<rparr>)"

definition init_state :: build_state where
  "init_state = \<lparr>out = [], slot_used = 0, global_page_index = 0\<rparr>"

text \<open>The counting loop over \<^verbatim>\<open>src_files\<close> before the placement computes
  \<^verbatim>\<open>total_input_pages\<close>, which nothing reads afterwards; it is left out.\<close>

definition build_nup_from_multiple ::
    "fitz_lib \<Rightarrow> file_system \<Rightarrow> string list \<Rightarrow> BuildParams \<Rightarrow> int option \<Rightarrow> py_error + out_page list" where
  "build_nup_from_multiple lib fs src_files params stop_after_pages =
     (case make_env params stop_after_pages of
        Inl e \<Rightarrow> Inl e
      | Inr env \<Rightarrow>
         (case place_files lib fs env src_files init_state of
            Raise src_closed e \<Rightarrow> Inl e
          | Return src_closed d \<Rightarrow> Inr d
          | Continue s \<Rightarrow> stamp_footers lib params (out s)))"


subsection \<open>Auxiliary notions for the proofs and examples\<close>

text \<open>The invariant of the candidate loop: \<open>best\<close> is the start value or a candidate seen
  so far; it qualifies unless it is still the start value; and it is at least as good as
  every qualifying candidate seen so far.\<close>

definition grid_inv :: "real \<Rightarrow> real \<Rightarrow> real \<Rightarrow> int \<times> int \<Rightarrow> (int \<times> int) set \<Rightarrow> bool" where
  "grid_inv usable_w gap_pt min_w best seen \<longleftrightarrow>
     (best = (1, 1) \<or> best \<in> seen) \<and>
     (cell_width usable_w gap_pt (snd best) \<ge> min_w \<or> best = (1, 1)) \<and>
     (\<forall>rc \<in> seen. cell_width usable_w gap_pt (snd rc) \<ge> min_w \<longrightarrow>
        cell_width usable_w gap_pt (snd best) \<ge> min_w \<and>
        slot_count rc \<le> slot_count best \<and>
        (slot_count rc = slot_count best \<longrightarrow>
           cell_width usable_w gap_pt (snd rc) \<le> cell_width usable_w gap_pt (snd best)))"

text \<open>Example layouts: 10 mm margin, 4 mm gap, and a minimum slide width of 90 mm and
  of 60 mm.\<close>

definition layout_min90 :: LayoutParams where
  "layout_min90 = \<lparr>rows = 2, cols = 2, margin_mm = 10, gap_mm = 4, auto_readable = True,
                     min_slide_w_mm = 90\<rparr>"

definition layout_min60 :: LayoutParams where
  "layout_min60 = \<lparr>rows = 2, cols = 2, margin_mm = 10, gap_mm = 4, auto_readable = True,
                     min_slide_w_mm = 60\<rparr>"

subsection \<open>Blank pixmaps\<close>

text \<open>The pixmap the scan reads (after the alpha byte is dropped), a pixel the scan
  marks, and a pixmap in which the scan marks no pixel.\<close>

definition effective_pixmap :: "Pixmap \<Rightarrow> Pixmap" where
  "effective_pixmap pix = (if pix_alpha pix then drop_alpha pix else pix)"

definition dark_pixel :: "Pixmap \<Rightarrow> int \<Rightarrow> nat \<Rightarrow> nat \<Rightarrow> bool" where
  "dark_pixel pix threshold y x =
     (case pixel_min (row_slice pix y) (pix_n pix) x of Inl e \<Rightarrow> False | Inr m \<Rightarrow> m < threshold)"

definition blank_pixmap :: "Pixmap \<Rightarrow> int \<Rightarrow> bool" where
  "blank_pixmap pix0 threshold =
     (let pix = effective_pixmap pix0
      in list_all (\<lambda>y. list_all (\<lambda>x. \<not> dark_pixel pix threshold y x) [0 ..< pix_width pix])
           [0 ..< pix_height pix])"

text \<open>\<open>gives_up\<close>: the cases in which the estimator is to fail open for a page:
  rasterization raises, the scan raises, or the scan marks no pixel.\<close>

definition gives_up :: "src_page \<Rightarrow> int \<Rightarrow> bool" where
  "gives_up sp threshold =
     (case get_pixmap sp of
        Inl e \<Rightarrow> True
      | Inr pix \<Rightarrow>
         (case nonwhite_bbox_try pix threshold of
            Inl e \<Rightarrow> True
          | Inr bbox \<Rightarrow> blank_pixmap pix threshold))"

text \<open>The clip rectangle the specification describes: for a page whose scan finds a
  bounding box, the box mapped back to native coordinates (the zoom is 1, so the box itself),
  grown by 2 on every side and clipped to the page's native rectangle; the native
  rectangle otherwise.\<close>

definition spec_content_clip :: "src_page \<Rightarrow> int \<Rightarrow> rect" where
  "spec_content_clip sp threshold =
     (case get_pixmap sp of
        Inl e \<Rightarrow> page_rect sp
      | Inr pix \<Rightarrow>
         (case nonwhite_bbox_pixmap pix threshold of
            None \<Rightarrow> page_rect sp
          | Some bbox \<Rightarrow> rect_and (rect_add bbox (Rect (- 2) (- 2) 2 2)) (page_rect sp)))"

subsection \<open>The placement loops as one loop over all source pages\<close>

text \<open>The source pages in the order of the two nested loops: the documents that open, in
  list order, each with its pages in their own order. \<open>place_all\<close> is the inner loop body
  run over such a list.\<close>

type_synonym item = "string \<times> nat \<times> src_page"

definition doc_items :: "file_system \<Rightarrow> string \<Rightarrow> item list" where
  "doc_items fs path =
     (case fs path of None \<Rightarrow> [] | Some d \<Rightarrow> map (\<lambda>(pno, sp). (path, pno, sp)) (enumerate 0 d))"

definition all_items :: "file_system \<Rightarrow> string list \<Rightarrow> item list" where
  "all_items fs src_files = concat (map (doc_items fs) src_files)"

definition then_loop :: "loop_res \<Rightarrow> (build_state \<Rightarrow> loop_res) \<Rightarrow> loop_res" where
  "then_loop r f =
     (case r of Raise c e \<Rightarrow> Raise c e | Return c d \<Rightarrow> Return c d | Continue s \<Rightarrow> f s)"

text \<open>What the \<^verbatim>\<open>finally: src.close()\<close> of the file loop makes of the outcome of the
  placement: a \<^verbatim>\<open>return out\<close> or an exception with the source already closed ends in
  the \<^verbatim>\<open>ValueError\<close> of the second \<^verbatim>\<open>close\<close>; with the source still open the
  \<^verbatim>\<open>finally\<close> closes it and the return or the exception goes through.\<close>

definition after_finally :: "loop_res \<Rightarrow> loop_res" where
  "after_finally r =
     (case r of
        Return c d \<Rightarrow> (if c then Raise True (ValueError ''document closed'') else Return True d)
      | Raise c e \<Rightarrow> (if c then Raise True (ValueError ''document closed'') else Raise True e)
      | Continue s \<Rightarrow> Continue s)"

fun place_all :: "fitz_lib \<Rightarrow> build_env \<Rightarrow> item list \<Rightarrow> build_state \<Rightarrow> loop_res" where
  "place_all lib env [] s = Continue s"
| "place_all lib env (it # rest) s =
     then_loop (place_page lib env (fst it) (fst (snd it)) (snd (snd it)) s) (place_all lib env rest)"

text \<open>What one source page adds to the current output page: the clip rectangle passed
  to \<^verbatim>\<open>show_pdf_page\<close>, and the one or two drawing calls. \<open>cur_out\<close> is the document once
  the loop body has made sure there is a page to draw on, \<open>stop_hit\<close> the test
  \<^verbatim>\<open>stop_after_pages is not None and len(out) >= stop_after_pages\<close>.\<close>

definition clip_of :: "BuildParams \<Rightarrow> src_page \<Rightarrow> rect" where
  "clip_of params sp =
     (if trim_whitespace params then estimate_content_clip sp (trim_threshold params)
      else page_rect sp)"

definition item_ops :: "build_env \<Rightarrow> nat \<Rightarrow> int \<Rightarrow> item \<Rightarrow> draw_op list" where
  "item_ops env gpi slot it =
     ShowPdfPage (slot_rect env slot) (fst it) (fst (snd it)) (clip_of (e_params env) (snd (snd it)))
     # (if draw_cell_indices (e_params env)
        then [InsertTextbox (cell_index_rect (slot_rect env slot)) (str_nat (Suc gpi))
                (cell_index_font_pt (e_params env))]
        else [])"

text \<open>The exception, if any, of the one or two drawing calls for a source page: of
  \<^verbatim>\<open>show_pdf_page\<close>, or else of the \<^verbatim>\<open>insert_textbox\<close> of the cell index.\<close>

definition item_raises :: "fitz_lib \<Rightarrow> build_env \<Rightarrow> nat \<Rightarrow> int \<Rightarrow> item \<Rightarrow> py_error option" where
  "item_raises lib env gpi slot it =
     (case show_pdf_page_raises lib (slot_rect env slot) (fst it) (fst (snd it)) (snd (snd it))
             (clip_of (e_params env) (snd (snd it))) of
        Some e \<Rightarrow> Some e
      | None \<Rightarrow>
         if draw_cell_indices (e_params env)
         then insert_textbox_raises lib (cell_index_rect (slot_rect env slot)) (str_nat (Suc gpi))
                (cell_index_font_pt (e_params env))
         else None)"

text \<open>\<open>items_accepted\<close>: the library accepts the drawing calls for every page of a list of
  source pages, where the \<open>i\<close>-th page goes to slot \<open>i mod n\<close>.\<close>

definition items_accepted :: "fitz_lib \<Rightarrow> build_env \<Rightarrow> item list \<Rightarrow> bool" where
  "items_accepted lib env items =
     list_all (\<lambda>(i, it). item_raises lib env i (int (i mod nat (e_total_slots env))) it = None)
       (enumerate 0 items)"

text \<open>The pages after a footer pass in which no call raises.\<close>

definition with_footer :: "BuildParams \<Rightarrow> out_page \<Rightarrow> nat \<Rightarrow> nat \<Rightarrow> out_page" where
  "with_footer params page page_idx1 total_pages =
     (if \<not> draw_page_numbers params then page
      else draw (InsertTextbox (footer_rect page) (footer_text page_idx1 total_pages)
                   (page_number_font_pt params)) page)"

definition with_footers :: "BuildParams \<Rightarrow> out_page list \<Rightarrow> out_page list" where
  "with_footers params out_doc =
     map (\<lambda>(i, page). with_footer params page (i + 1) (length out_doc)) (enumerate 0 out_doc)"

definition cur_out :: "build_env \<Rightarrow> build_state \<Rightarrow> out_page list" where
  "cur_out env s = (if slot_used s = 0 then out s @ [new_page (e_page_w env) (e_page_h env)] else out s)"

definition stop_hit :: "build_env \<Rightarrow> nat \<Rightarrow> bool" where
  "stop_hit env len = (case e_stop_after_pages env of None \<Rightarrow> False | Some k \<Rightarrow> int len \<ge> k)"

text \<open>The placements of a page are its \<^verbatim>\<open>show_pdf_page\<close> calls in order (destination,
  source path, source page number, clip); the placements of a document are those of its
  pages in page order, each with the index of its output page. \<open>page_footer\<close> is the text of
  the text box drawn last on a page. \<open>pages_needed k n\<close> is \<open>ceil (k / n)\<close>.\<close>

definition page_footer :: "out_page \<Rightarrow> string option" where
  "page_footer pg =
     (case rev (pg_ops pg) of InsertTextbox r t f # rest \<Rightarrow> Some t | _ \<Rightarrow> None)"

definition page_placements :: "out_page \<Rightarrow> (rect \<times> string \<times> nat \<times> rect) list" where
  "page_placements pg =
     concat (map (\<lambda>op. case op of ShowPdfPage d p i c \<Rightarrow> [(d, p, i, c)] | InsertTextbox r t f \<Rightarrow> [])
                 (pg_ops pg))"

definition placements :: "out_page list \<Rightarrow> (nat \<times> rect \<times> string \<times> nat \<times> rect) list" where
  "placements doc = concat (map (\<lambda>(j, pg). map (Pair j) (page_placements pg)) (enumerate 0 doc))"

definition pages_needed :: "nat \<Rightarrow> nat \<Rightarrow> nat" where
  "pages_needed k n = (k + n - 1) div n"

text \<open>Where the placement loops put the \<open>i\<close>-th source page of a list: on output page
  \<open>i div n\<close> in the cell of slot \<open>i mod n\<close>, for \<open>n\<close> slots per page. \<open>placed_inv\<close> is the
  invariant of the loops: after the pages \<open>items\<close> the cursor, the running index, the number
  of output pages and the placements are as expected, and every output page has the paper
  size.\<close>

definition expected_placements :: "build_env \<Rightarrow> item list \<Rightarrow> (nat \<times> rect \<times> string \<times> nat \<times> rect) list" where
  "expected_placements env items =
     (let n = nat (e_total_slots env)
      in map (\<lambda>(i, it). (i div n, slot_rect env (int (i mod n)), fst it, fst (snd it),
                          clip_of (e_params env) (snd (snd it))))
             (enumerate 0 items))"

definition placed_inv :: "build_env \<Rightarrow> item list \<Rightarrow> build_state \<Rightarrow> bool" where
  "placed_inv env items s \<longleftrightarrow>
     slot_used s = int (length items mod nat (e_total_slots env)) \<and>
     global_page_index s = length items \<and>
     length (out s) = pages_needed (length items) (nat (e_total_slots env)) \<and>
     placements (out s) = expected_placements env items \<and>
     list_all (\<lambda>pg. pg_width pg = e_page_w env \<and> pg_height pg = e_page_h env) (out s)"

text \<open>The data model's condition on \<open>LayoutParams\<close>: at least one row and one column,
  unless the grid is chosen automatically (then \<open>rows\<close> and \<open>cols\<close> are ignored).
  \<open>grid_slots\<close> is the number of slots per output page of the grid in effect.\<close>

definition valid_layout :: "BuildParams \<Rightarrow> bool" where
  "valid_layout params \<longleftrightarrow>
     auto_readable (layout params) \<or> (1 \<le> rows (layout params) \<and> 1 \<le> cols (layout params))"

definition grid_slots :: "BuildParams \<Rightarrow> nat" where
  "grid_slots params = nat (slot_count (effective_grid params))"

subsection \<open>Example inputs\<close>

text \<open>Small pixmaps and pages: one with a dark pixel at the left edge, one that is white
  everywhere, a one-byte-per-pixel pixmap (on which the scan reads past the row), and a page
  whose rasterization raises. Two documents of three and two pages, a third whose three
  pages all make the estimator give up, and parameters for a fixed 2 x 2 grid on A4.\<close>

definition white_pixmap :: Pixmap where
  "white_pixmap = \<lparr>pix_alpha = False, pix_width = 2, pix_height = 1, pix_n = 3,
                    pix_samples = [255, 255, 255, 250, 251, 252]\<rparr>"

definition gray_pixmap :: Pixmap where
  "gray_pixmap = \<lparr>pix_alpha = False, pix_width = 3, pix_height = 1, pix_n = 1,
                   pix_samples = [0, 0, 0]\<rparr>"

definition ink_pixmap :: Pixmap where
  "ink_pixmap = \<lparr>pix_alpha = False, pix_width = 6, pix_height = 1, pix_n = 3,
                  pix_samples = [0, 0, 0, 255, 255, 255, 255, 255, 255,
                                 255, 255, 255, 255, 255, 255, 255, 255, 255]\<rparr>"

definition ink_page :: src_page where
  "ink_page = \<lparr>page_rect = Rect 0 0 6 1, get_pixmap = Inr ink_pixmap\<rparr>"

definition unrenderable_page :: src_page where
  "unrenderable_page = \<lparr>page_rect = Rect 0 0 595 842, get_pixmap = Inl (RuntimeError ''cannot render'')\<rparr>"

definition white_page :: src_page where
  "white_page = \<lparr>page_rect = Rect 0 0 2 1, get_pixmap = Inr white_pixmap\<rparr>"

definition gray_page :: src_page where
  "gray_page = \<lparr>page_rect = Rect 0 0 3 1, get_pixmap = Inr gray_pixmap\<rparr>"

definition example_fs :: file_system where
  "example_fs path =
     (if path = ''D1.pdf'' then Some [ink_page, white_page, gray_page]
      else if path = ''D2.pdf'' then Some [unrenderable_page, ink_page]
      else if path = ''D3.pdf'' then Some [unrenderable_page, gray_page, white_page]
      else None)"

definition example_params :: BuildParams where
  "example_params =
     \<lparr>paper = ''A4'', landscape = False,
      layout = \<lparr>rows = 2, cols = 2, margin_mm = 10, gap_mm = 4, auto_readable = False,
                 min_slide_w_mm = 90\<rparr>,
      trim_whitespace = True, trim_threshold = 245,
      draw_page_numbers = True, draw_cell_indices = True,
      cell_index_font_pt = 7, page_number_font_pt = 9\<rparr>"

text \<open>The example parameters with trim threshold 0.\<close>

definition example_params_t0 :: BuildParams where
  "example_params_t0 = example_params\<lparr>trim_threshold := 0\<rparr>"

text \<open>A library that checks its rectangles the way PyMuPDF does and accepts every other
  call: \<^verbatim>\<open>show_pdf_page\<close> rejects an empty destination rectangle and an empty intersection
  of the source page with the clip, \<^verbatim>\<open>insert_textbox\<close> an empty text rectangle.\<close>

definition pymupdf :: fitz_lib where
  "pymupdf =
     \<lparr>show_pdf_page_raises = (\<lambda>dest path pno sp clip.
         if rect_is_empty dest then Some (ValueError ''rect must be finite and not empty'')
         else if rect_is_empty (rect_and (page_rect sp) clip)
         then Some (ValueError ''clip must be finite and not empty'')
         else None),
      insert_textbox_raises = (\<lambda>r txt fontsize.
         if rect_is_empty r then Some (ValueError ''text box must be finite and not empty'')
         else None)\<rparr>"

text \<open>A fixed grid of one row and ten columns with the largest margin and gap of the user
  interface: the cells have negative width.\<close>

definition narrow_params :: BuildParams where
  "narrow_params =
     example_params\<lparr>layout := \<lparr>rows = 1, cols = 10, margin_mm = 50, gap_mm = 30,
                                 auto_readable = False, min_slide_w_mm = 90\<rparr>\<rparr>"

section \<open>Grid chooser: properties\<close>

lemma grid_step_inv:
  assumes inv: "grid_inv W g m best seen"
    and pos: "slot_count rc \<ge> 1" and one: "slot_count rc = 1 \<Longrightarrow> snd rc = 1"
  shows "grid_inv W g m (grid_step W g m best rc) (insert rc seen)"
proof (cases "cell_width W g (snd rc) \<ge> m")
  case False
  then have "grid_step W g m best rc = best" by (simp add: grid_step_def Let_def)
  with inv False show ?thesis by (auto simp: grid_inv_def)
next
  case q: True
  have sc: "slot_count (1, 1) = 1" by (simp add: slot_count_def)
  consider (gt) "slot_count rc > slot_count best"
    | (eq_gt) "slot_count rc = slot_count best" "cell_width W g (snd rc) > cell_width W g (snd best)"
    | (eq_le) "slot_count rc = slot_count best" "\<not> cell_width W g (snd rc) > cell_width W g (snd best)"
    | (lt) "slot_count rc < slot_count best" by linarith
  then show ?thesis
  proof cases
    case gt
    then have "grid_step W g m best rc = rc" using q by (simp add: grid_step_def Let_def slot_count_def)
    with inv q gt show ?thesis by (fastforce simp: grid_inv_def)
  next
    case eq_gt
    then have "grid_step W g m best rc = rc" using q by (simp add: grid_step_def Let_def slot_count_def)
    with inv q eq_gt show ?thesis by (fastforce simp: grid_inv_def)
  next
    case eq_le
    then have st: "grid_step W g m best rc = best" using q by (simp add: grid_step_def Let_def slot_count_def)
    have qb: "cell_width W g (snd best) \<ge> m"
    proof (rule ccontr)
      assume nq: "\<not> ?thesis"
      with inv have "best = (1, 1)" by (simp add: grid_inv_def)
      with eq_le(1) sc one have "snd rc = snd best" by simp
      with q nq show False by simp
    qed
    with inv st eq_le show ?thesis by (auto simp: grid_inv_def)
  next
    case lt
    then have st: "grid_step W g m best rc = best" using q by (simp add: grid_step_def Let_def slot_count_def)
    have qb: "cell_width W g (snd best) \<ge> m"
    proof (rule ccontr)
      assume nq: "\<not> ?thesis"
      with inv have "best = (1, 1)" by (simp add: grid_inv_def)
      with lt sc pos show False by simp
    qed
    with inv st lt show ?thesis by (auto simp: grid_inv_def)
  qed
qed

lemma grid_fold_inv:
  assumes "\<forall>rc \<in> set xs. slot_count rc \<ge> 1 \<and> (slot_count rc = 1 \<longrightarrow> snd rc = 1)"
    and "grid_inv W g m best seen"
  shows "grid_inv W g m (foldl (grid_step W g m) best xs) (seen \<union> set xs)"
  using assms
proof (induction xs arbitrary: best seen)
  case Nil
  then show ?case by simp
next
  case (Cons rc xs)
  have "grid_inv W g m (grid_step W g m best rc) (insert rc seen)"
    using Cons.prems by (intro grid_step_inv) auto
  from Cons.IH [OF _ this] Cons.prems(1) show ?case by simp
qed

lemma candidates_slots:
  "\<forall>rc \<in> set CANDIDATE_GRIDS. slot_count rc \<ge> 1 \<and> (slot_count rc = 1 \<longrightarrow> snd rc = 1)"
  by (simp add: CANDIDATE_GRIDS_def slot_count_def)

lemma one_one_candidate: "(1, 1) \<in> set CANDIDATE_GRIDS"
  by (simp add: CANDIDATE_GRIDS_def)

lemma choose_auto_grid_inv:
  "grid_inv (usable_width paper_pt lp) (mm_to_pt (gap_mm lp)) (mm_to_pt (min_slide_w_mm lp))
     (choose_auto_grid paper_pt lp) (set CANDIDATE_GRIDS)"
proof -
  have "grid_inv (usable_width paper_pt lp) (mm_to_pt (gap_mm lp)) (mm_to_pt (min_slide_w_mm lp)) (1, 1) {}"
    by (simp add: grid_inv_def)
  from grid_fold_inv [OF candidates_slots this]
  show ?thesis by (simp add: choose_auto_grid_def usable_width_def Let_def)
qed

lemma choose_auto_grid_candidate: "choose_auto_grid paper_pt lp \<in> set CANDIDATE_GRIDS"
  using choose_auto_grid_inv [of paper_pt lp] one_one_candidate unfolding grid_inv_def by metis



text \<open>
  Claim C2. For a fixed paper size, margin and gap, the slot count of the chosen grid does
  not grow with the minimum slide width: if two layouts differ only by minimum widths
  \<open>w1 \<le> w2\<close>, the grid chosen for \<open>w2\<close> has at most as many slots as the one for \<open>w1\<close>.
\<close>

theorem choose_auto_grid_slots_antimono:
  assumes "margin_mm l1 = margin_mm l2" "gap_mm l1 = gap_mm l2"
    and "min_slide_w_mm l1 \<le> min_slide_w_mm l2"
  shows "slot_count (choose_auto_grid paper_pt l2) \<le> slot_count (choose_auto_grid paper_pt l1)"
proof -
  let ?W = "usable_width paper_pt l1" and ?g = "mm_to_pt (gap_mm l1)"
  let ?b1 = "choose_auto_grid paper_pt l1" and ?b2 = "choose_auto_grid paper_pt l2"
  have W: "usable_width paper_pt l2 = ?W" and g: "mm_to_pt (gap_mm l2) = ?g"
    using assms by (simp_all add: usable_width_def)
  have m: "mm_to_pt (min_slide_w_mm l1) \<le> mm_to_pt (min_slide_w_mm l2)"
    using assms(3) by (simp add: mm_to_pt_def MM_PER_INCH_def PT_PER_INCH_def divide_right_mono)
  have inv1: "grid_inv ?W ?g (mm_to_pt (min_slide_w_mm l1)) ?b1 (set CANDIDATE_GRIDS)"
    by (rule choose_auto_grid_inv)
  have inv2: "grid_inv ?W ?g (mm_to_pt (min_slide_w_mm l2)) ?b2 (set CANDIDATE_GRIDS)"
    using choose_auto_grid_inv [of paper_pt l2] by (simp add: W g)
  have mem1: "?b1 \<in> set CANDIDATE_GRIDS" and mem2: "?b2 \<in> set CANDIDATE_GRIDS"
    by (rule choose_auto_grid_candidate)+
  show ?thesis
  proof (cases "cell_width ?W ?g (snd ?b2) \<ge> mm_to_pt (min_slide_w_mm l2)")
    case True
    with m have "cell_width ?W ?g (snd ?b2) \<ge> mm_to_pt (min_slide_w_mm l1)" by linarith
    with inv1 mem2 show ?thesis unfolding grid_inv_def by simp
  next
    case False
    with inv2 have "?b2 = (1, 1)" unfolding grid_inv_def by simp
    moreover have "slot_count ?b1 \<ge> 1" using candidates_slots mem1 by simp
    ultimately show ?thesis by (simp add: slot_count_def)
  qed
qed

theorem choose_auto_grid_slots_antimono_witness:
  "margin_mm layout_min60 = margin_mm layout_min90 \<and>
   gap_mm layout_min60 = gap_mm layout_min90 \<and>
   min_slide_w_mm layout_min60 \<le> min_slide_w_mm layout_min90 \<and>
   slot_count (choose_auto_grid (paper_size_pt ''A4'' False) layout_min90)
     \<le> slot_count (choose_auto_grid (paper_size_pt ''A4'' False) layout_min60)"
proof -
  have h: "margin_mm layout_min60 = margin_mm layout_min90"
    "gap_mm layout_min60 = gap_mm layout_min90"
    "min_slide_w_mm layout_min60 \<le> min_slide_w_mm layout_min90"
    by (simp_all add: layout_min60_def layout_min90_def)
  from h choose_auto_grid_slots_antimono [OF h, of "paper_size_pt ''A4'' False"]
  show ?thesis by simp
qed

section \<open>Content-bounds estimator: properties\<close>

lemma for_each_inv:
  assumes "for_each xs body s = Inr s'" and "P s"
    and "\<And>i a b. i \<in> set xs \<Longrightarrow> P a \<Longrightarrow> body i a = Inr b \<Longrightarrow> P b"
  shows "P s'"
  using assms
proof (induction xs arbitrary: s)
  case Nil
  then show ?case by simp
next
  case (Cons i rest)
  from Cons.prems(1) obtain s1 where b: "body i s = Inr s1" and r: "for_each rest body s1 = Inr s'"
    by (auto split: sum.splits)
  have "P s1" using Cons.prems(3) [of i s s1] Cons.prems(2) b by simp
  show ?case
    by (rule Cons.IH [OF r \<open>P s1\<close>]) (rule Cons.prems(3), simp_all)
qed

lemma scan_pixel_not_dark:
  assumes "\<not> dark_pixel pix t y x" and "scan_pixel (row_slice pix y) (pix_n pix) t y x acc = Inr acc'"
  shows "acc' = acc"
  using assms by (auto simp: dark_pixel_def scan_pixel_def split: sum.splits if_splits)

lemma scan_row_blank:
  assumes "\<forall>x < pix_width pix. \<not> dark_pixel pix t y x" and "scan_row pix t y acc = Inr acc'"
  shows "acc' = acc"
proof -
  have "acc' = acc"
    using assms(2) [unfolded scan_row_def]
  proof (rule for_each_inv [where P = "\<lambda>a. a = acc"])
    show "acc = acc" by simp
  next
    fix i a b
    assume "i \<in> set [0 ..< pix_width pix]" "a = acc"
      "scan_pixel (row_slice pix y) (pix_n pix) t y i a = Inr b"
    then show "b = acc" using assms(1) scan_pixel_not_dark [of pix t y i a b] by simp
  qed
  then show ?thesis .
qed

lemma nonwhite_bbox_try_blank:
  assumes "blank_pixmap pix0 t"
  shows "nonwhite_bbox_try pix0 t = Inr None \<or> (\<exists>e. nonwhite_bbox_try pix0 t = Inl e)"
proof -
  let ?pix = "effective_pixmap pix0"
  let ?init = "(int (pix_width ?pix), int (pix_height ?pix), - 1, - 1) :: bbox_acc"
  have nd: "\<forall>y < pix_height ?pix. \<forall>x < pix_width ?pix. \<not> dark_pixel ?pix t y x"
    using assms by (simp add: blank_pixmap_def Let_def list_all_iff)
  show ?thesis
  proof (cases "for_each [0 ..< pix_height ?pix] (scan_row ?pix t) ?init")
    case (Inl e)
    then show ?thesis by (simp add: nonwhite_bbox_try_def effective_pixmap_def Let_def)
  next
    case (Inr acc)
    have "acc = ?init"
      using Inr
    proof (rule for_each_inv [where P = "\<lambda>a. a = ?init"])
      show "?init = ?init" by simp
    next
      fix i a b
      assume "i \<in> set [0 ..< pix_height ?pix]" "a = ?init" "scan_row ?pix t i a = Inr b"
      then show "b = ?init" using nd scan_row_blank [of ?pix t i a b] by simp
    qed
    with Inr show ?thesis by (simp add: nonwhite_bbox_try_def effective_pixmap_def Let_def)
  qed
qed

lemma nonwhite_bbox_pixmap_blank:
  "blank_pixmap pix t \<Longrightarrow> nonwhite_bbox_pixmap pix t = None"
  using nonwhite_bbox_try_blank [of pix t] by (auto simp: nonwhite_bbox_pixmap_def)

lemma blank_pixmap_threshold_0: "blank_pixmap pix 0"
  by (auto simp: blank_pixmap_def Let_def list_all_iff dark_pixel_def pixel_min_def split: sum.splits)

lemma estimate_content_clip_no_bbox:
  "get_pixmap sp = Inr pix \<Longrightarrow> nonwhite_bbox_pixmap pix t = None \<Longrightarrow>
   estimate_content_clip sp t = page_rect sp"
  by (simp add: estimate_content_clip_def estimate_content_clip_try_def)

lemma estimate_content_clip_raster_fails:
  "get_pixmap sp = Inl e \<Longrightarrow> estimate_content_clip sp t = page_rect sp"
  by (simp add: estimate_content_clip_def estimate_content_clip_try_def)

lemma estimate_content_clip_page_rect: "estimate_content_clip sp t = page_rect sp"
  by (simp add: estimate_content_clip_def estimate_content_clip_try_def transform_rect_def Let_def
           split: sum.splits option.splits)

text \<open>
  Claim C7. The rectangle \<open>estimate_content_clip\<close> returns is to be the content bounding
  box, grown by 2 on every side and clipped to the page's native rectangle. The code does
  not get there: once the scan has found a bounding box, the attribute lookup
  \<^verbatim>\<open>inv.transform_rect\<close> raises, and the \<^verbatim>\<open>except\<close> clause returns the native rectangle.
  For the 6 x 1 page with one dark pixel at its left edge the scan finds the box
  \<open>(0, 0, 1, 1)\<close> and the specified clip is \<open>(0, 0, 3, 1)\<close>, but the function returns the
  whole page \<open>(0, 0, 6, 1)\<close>.
\<close>

theorem estimate_content_clip_never_trims:
  "get_pixmap ink_page = Inr ink_pixmap \<and>
   nonwhite_bbox_pixmap ink_pixmap 245 = Some (Rect 0 0 1 1) \<and>
   spec_content_clip ink_page 245 = Rect 0 0 3 1 \<and>
   estimate_content_clip ink_page 245 = Rect 0 0 6 1"
  by code_simp
section \<open>Page compositor: the placement loops\<close>

lemma then_loop_simps [simp]:
  "then_loop (Raise c e) f = Raise c e"
  "then_loop (Return c d) f = Return c d"
  "then_loop (Continue s) f = f s"
  by (simp_all add: then_loop_def)

lemma then_loop_assoc:
  "then_loop (then_loop r f) g = then_loop r (\<lambda>s. then_loop (f s) g)"
  by (cases r) simp_all

lemma place_all_append:
  "place_all lib env (xs @ ys) s = then_loop (place_all lib env xs s) (place_all lib env ys)"
proof (induction xs arbitrary: s)
  case Nil
  show ?case by simp
next
  case (Cons it xs)
  have "place_all lib env (xs @ ys) = (\<lambda>s. then_loop (place_all lib env xs s) (place_all lib env ys))"
    by (rule ext) (rule Cons.IH)
  then show ?case by (simp add: then_loop_assoc)
qed

lemma place_pages_flat:
  "place_pages lib env path ps s = place_all lib env (map (\<lambda>(pno, sp). (path, pno, sp)) ps) s"
proof (induction ps arbitrary: s)
  case Nil
  show ?case by simp
next
  case (Cons p ps)
  obtain pno sp where p: "p = (pno, sp)" by (cases p)
  show ?case
    by (simp add: p Cons.IH then_loop_def split: loop_res.splits)
qed

lemma after_finally_simps [simp]:
  "after_finally (Continue s) = Continue s"
  "after_finally (Return True d) = Raise True (ValueError ''document closed'')"
  "after_finally (Return False d) = Return True d"
  "after_finally (Raise True e) = Raise True (ValueError ''document closed'')"
  "after_finally (Raise False e) = Raise True e"
  by (simp_all add: after_finally_def)

lemma after_finally_then_loop:
  "after_finally (then_loop r f) =
     (case r of Continue s \<Rightarrow> after_finally (f s) | _ \<Rightarrow> after_finally r)"
  by (cases r) simp_all

lemma place_files_flat:
  "place_files lib fs env src_files s = after_finally (place_all lib env (all_items fs src_files) s)"
proof (induction src_files arbitrary: s)
  case Nil
  show ?case by (simp add: all_items_def)
next
  case (Cons path rest)
  show ?case
  proof (cases "fs path")
    case None
    then show ?thesis using Cons.IH by (simp add: all_items_def doc_items_def fitz_open_def)
  next
    case (Some d)
    have items: "all_items fs (path # rest) =
        map (\<lambda>(pno, sp). (path, pno, sp)) (enumerate 0 d) @ all_items fs rest"
      using Some by (simp add: all_items_def doc_items_def)
    show ?thesis
    proof (cases "place_all lib env (map (\<lambda>(pno, sp). (path, pno, sp)) (enumerate 0 d)) s")
      case (Continue s')
      then show ?thesis
        using Some Cons.IH
        by (simp add: items fitz_open_def place_all_append place_pages_flat Let_def doc_close_def)
    next
      case (Return c doc)
      then show ?thesis
        using Some
        by (cases c)
           (simp_all add: items fitz_open_def place_all_append place_pages_flat Let_def doc_close_def)
    next
      case (Raise c e)
      then show ?thesis
        using Some
        by (cases c)
           (simp_all add: items fitz_open_def place_all_append place_pages_flat Let_def doc_close_def)
    qed
  qed
qed

lemma on_out_page_snoc:
  "on_out_page call (ys @ [y]) = (case call y of Inl e \<Rightarrow> Inl e | Inr y' \<Rightarrow> Inr (ys @ [y']))"
  by (cases ys) (simp_all add: on_out_page_def butlast_append split: sum.splits)

lemma stamp_from_Inr:
  "stamp_from lib params tot i doc = Inr d \<Longrightarrow>
   d = map (\<lambda>(j, page). with_footer params page (j + 1) tot) (enumerate i doc)"
proof (induction doc arbitrary: i d)
  case Nil
  then show ?case by simp
next
  case (Cons page rest)
  from Cons.prems obtain page' rest' where
    p: "draw_page_number_footer lib params page (i + 1) tot = Inr page'"
    and r: "stamp_from lib params tot (i + 1) rest = Inr rest'" and d: "d = page' # rest'"
    by (auto split: sum.splits)
  from p have "page' = with_footer params page (i + 1) tot"
    by (auto simp: draw_page_number_footer_def insert_textbox_def with_footer_def
             split: if_splits option.splits)
  with Cons.IH [OF r] d show ?case by simp
qed

lemma stamp_footers_Inr:
  "stamp_footers lib params doc = Inr d \<Longrightarrow> d = with_footers params doc"
  using stamp_from_Inr [of lib params "length doc" 0 doc d]
  by (simp add: stamp_footers_def with_footers_def Let_def)

lemma stamp_from_accepted:
  assumes "\<And>pg t. pg \<in> set doc \<Longrightarrow> draw_page_numbers params \<Longrightarrow>
     insert_textbox_raises lib (footer_rect pg) t (page_number_font_pt params) = None"
  shows "stamp_from lib params tot i doc =
     Inr (map (\<lambda>(j, page). with_footer params page (j + 1) tot) (enumerate i doc))"
  using assms
proof (induction doc arbitrary: i)
  case Nil
  show ?case by simp
next
  case (Cons page rest)
  have "draw_page_number_footer lib params page (i + 1) tot = Inr (with_footer params page (i + 1) tot)"
    using Cons.prems [of page]
    by (simp add: draw_page_number_footer_def insert_textbox_def with_footer_def)
  moreover have "stamp_from lib params tot (i + 1) rest =
      Inr (map (\<lambda>(j, page). with_footer params page (j + 1) tot) (enumerate (i + 1) rest))"
    by (rule Cons.IH) (rule Cons.prems, simp_all)
  ultimately show ?case by simp
qed

lemma stamp_footers_accepted:
  assumes "\<And>pg t. pg \<in> set doc \<Longrightarrow> draw_page_numbers params \<Longrightarrow>
     insert_textbox_raises lib (footer_rect pg) t (page_number_font_pt params) = None"
  shows "stamp_footers lib params doc = Inr (with_footers params doc)"
  using stamp_from_accepted [OF assms, of _ "length doc" 0]
  by (simp add: stamp_footers_def with_footers_def Let_def)

lemma place_page_step:
  assumes cols: "e_cols env \<noteq> 0" and cur: "cur_out env s = ys @ [y]"
  shows "place_page lib env path pno sp s =
     (case item_raises lib env (global_page_index s) (slot_used s) (path, pno, sp) of
        Some e \<Rightarrow> Raise False e
      | None \<Rightarrow>
         (let out' = ys @ [y\<lparr>pg_ops := pg_ops y @ item_ops env (global_page_index s) (slot_used s) (path, pno, sp)\<rparr>]
          in if slot_used s + 1 \<ge> e_total_slots env then
               if stop_hit env (length out') then
                 (case stamp_footers lib (e_params env) out' of
                    Inl e \<Rightarrow> Raise True e | Inr d \<Rightarrow> Return True d)
               else Continue \<lparr>out = out', slot_used = 0, global_page_index = Suc (global_page_index s)\<rparr>
             else Continue \<lparr>out = out', slot_used = slot_used s + 1,
                             global_page_index = Suc (global_page_index s)\<rparr>))"
proof -
  have c: "(if slot_used s = 0 then out s @ [new_page (e_page_w env) (e_page_h env)] else out s) = ys @ [y]"
    using cur by (simp add: cur_out_def)
  show ?thesis
    unfolding place_page_def Let_def c
    using cols
    by (simp add: on_out_page_snoc show_pdf_page_def insert_textbox_def item_raises_def
             item_ops_def clip_of_def stop_hit_def draw_def doc_close_def
             split: option.split)
qed

lemma pages_needed_Suc: "1 \<le> n \<Longrightarrow> pages_needed (Suc k) n = Suc (k div n)"
  by (simp add: pages_needed_def)

lemma pages_needed_mod0: "1 \<le> n \<Longrightarrow> k mod n = 0 \<Longrightarrow> pages_needed k n = k div n"
proof (cases k)
  case 0
  assume "1 \<le> n"
  with 0 show ?thesis by (simp add: pages_needed_def)
next
  case (Suc k')
  assume "1 \<le> n" "k mod n = 0"
  with Suc show ?thesis by (simp add: pages_needed_Suc div_Suc)
qed

lemma pages_needed_mod_pos: "1 \<le> n \<Longrightarrow> k mod n \<noteq> 0 \<Longrightarrow> pages_needed k n = Suc (k div n)"
proof (cases k)
  case 0
  assume "k mod n \<noteq> 0"
  with 0 show ?thesis by simp
next
  case (Suc k')
  assume "1 \<le> n" "k mod n \<noteq> 0"
  with Suc show ?thesis by (simp add: pages_needed_Suc div_Suc)
qed

lemma page_placements_new_page [simp]: "page_placements (new_page w h) = []"
  by (simp add: page_placements_def new_page_def)

lemma page_placements_item_ops:
  "page_placements (y\<lparr>pg_ops := pg_ops y @ item_ops env gpi slot it\<rparr>) =
   page_placements y @ [(slot_rect env slot, fst it, fst (snd it), clip_of (e_params env) (snd (snd it)))]"
  by (simp add: page_placements_def item_ops_def)

lemma placements_snoc:
  "placements (ys @ [y]) = placements ys @ map (Pair (length ys)) (page_placements y)"
  by (simp add: placements_def enumerate_append_eq)

lemma expected_placements_snoc:
  "expected_placements env (items @ [it]) =
   expected_placements env items @
     [(length items div nat (e_total_slots env),
       slot_rect env (int (length items mod nat (e_total_slots env))),
       fst it, fst (snd it), clip_of (e_params env) (snd (snd it)))]"
  by (simp add: expected_placements_def Let_def enumerate_append_eq)

lemma cur_out_shape:
  assumes inv: "placed_inv env items s" and n: "1 \<le> e_total_slots env"
  shows "\<exists>ys y. cur_out env s = ys @ [y] \<and> length ys = length items div nat (e_total_slots env) \<and>
           placements (ys @ [y]) = expected_placements env items \<and>
           list_all (\<lambda>pg. pg_width pg = e_page_w env \<and> pg_height pg = e_page_h env) (ys @ [y])"
proof (cases "length items mod nat (e_total_slots env) = 0")
  case True
  with inv have su: "slot_used s = 0" by (simp add: placed_inv_def)
  have len: "length (out s) = length items div nat (e_total_slots env)"
    using inv n True by (simp add: placed_inv_def pages_needed_mod0)
  have "cur_out env s = out s @ [new_page (e_page_w env) (e_page_h env)]"
    using su by (simp add: cur_out_def)
  moreover have "placements (out s @ [new_page (e_page_w env) (e_page_h env)]) = expected_placements env items"
    using inv by (simp add: placements_snoc placed_inv_def)
  moreover have "list_all (\<lambda>pg. pg_width pg = e_page_w env \<and> pg_height pg = e_page_h env)
      (out s @ [new_page (e_page_w env) (e_page_h env)])"
    using inv by (simp add: placed_inv_def new_page_def)
  ultimately show ?thesis using len by blast
next
  case False
  with inv have su: "slot_used s \<noteq> 0" by (simp add: placed_inv_def)
  have len: "length (out s) = Suc (length items div nat (e_total_slots env))"
    using inv n False by (simp add: placed_inv_def pages_needed_mod_pos)
  then have "out s \<noteq> []" by auto
  then obtain ys y where o: "out s = ys @ [y]" by (metis rev_exhaust)
  with len have "length ys = length items div nat (e_total_slots env)" by simp
  moreover have "cur_out env s = ys @ [y]" using su o by (simp add: cur_out_def)
  moreover have "placements (ys @ [y]) = expected_placements env items"
    using inv o by (simp add: placed_inv_def)
  moreover have "list_all (\<lambda>pg. pg_width pg = e_page_w env \<and> pg_height pg = e_page_h env) (ys @ [y])"
    using inv o by (simp add: placed_inv_def)
  ultimately show ?thesis by blast
qed

lemma wrap_iff:
  assumes "1 \<le> n"
  shows "int n \<le> int (k mod n) + 1 \<longleftrightarrow> Suc k mod n = 0"
proof -
  have "k mod n < n" using assms by simp
  then show ?thesis by (auto simp: mod_Suc)
qed

text \<open>One run of the loop body from a state that satisfies the invariant: the drawing
  calls raise, or the invariant holds again for one page more, and the body goes on or, on
  a full page with the bound reached, closes the source and runs the footer pass.\<close>

lemma place_page_inv:
  assumes inv: "placed_inv env items s" and n: "1 \<le> e_total_slots env" and cols: "e_cols env \<noteq> 0"
  shows "\<exists>s'. placed_inv env (items @ [(path, pno, sp)]) s' \<and>
           place_page lib env path pno sp s =
             (case item_raises lib env (length items) (int (length items mod nat (e_total_slots env)))
                     (path, pno, sp) of
                Some e \<Rightarrow> Raise False e
              | None \<Rightarrow>
                 if Suc (length items) mod nat (e_total_slots env) = 0 \<and> stop_hit env (length (out s'))
                 then (case stamp_footers lib (e_params env) (out s') of
                         Inl e \<Rightarrow> Raise True e | Inr d \<Rightarrow> Return True d)
                 else Continue s')"
proof -
  let ?n = "nat (e_total_slots env)"
  let ?k = "length items"
  have n1: "1 \<le> ?n" and nn: "int ?n = e_total_slots env" using n by simp_all
  from cur_out_shape [OF inv n] obtain ys y where
    cur: "cur_out env s = ys @ [y]" and lys: "length ys = ?k div ?n"
    and pl: "placements (ys @ [y]) = expected_placements env items"
    and sz: "list_all (\<lambda>pg. pg_width pg = e_page_w env \<and> pg_height pg = e_page_h env) (ys @ [y])"
    by blast
  have su: "slot_used s = int (?k mod ?n)" and gpi: "global_page_index s = ?k"
    using inv by (simp_all add: placed_inv_def)
  define out' where "out' = ys @ [y\<lparr>pg_ops := pg_ops y @ item_ops env ?k (int (?k mod ?n)) (path, pno, sp)\<rparr>]"
  define s' where "s' = \<lparr>out = out', slot_used = int (Suc ?k mod ?n), global_page_index = Suc ?k\<rparr>"
  have wrap: "e_total_slots env \<le> int (?k mod ?n) + 1 \<longleftrightarrow> Suc ?k mod ?n = 0"
    using wrap_iff [OF n1, of ?k] nn by simp
  have nowrap: "Suc ?k mod ?n \<noteq> 0 \<Longrightarrow> int (Suc ?k mod ?n) = int (?k mod ?n) + 1"
    by (simp add: mod_Suc split: if_splits)
  have pl': "placements out' = expected_placements env (items @ [(path, pno, sp)])"
    using pl lys
    by (simp add: out'_def placements_snoc page_placements_item_ops expected_placements_snoc)
  have len': "length out' = pages_needed (Suc ?k) ?n"
    using lys n1 by (simp add: out'_def pages_needed_Suc)
  have sz': "list_all (\<lambda>pg. pg_width pg = e_page_w env \<and> pg_height pg = e_page_h env) out'"
    using sz by (simp add: out'_def)
  have inv': "placed_inv env (items @ [(path, pno, sp)]) s'"
    using pl' len' sz' by (simp add: placed_inv_def s'_def)
  have "place_page lib env path pno sp s =
      (case item_raises lib env ?k (int (?k mod ?n)) (path, pno, sp) of
         Some e \<Rightarrow> Raise False e
       | None \<Rightarrow>
          if Suc ?k mod ?n = 0 \<and> stop_hit env (length (out s'))
          then (case stamp_footers lib (e_params env) (out s') of
                  Inl e \<Rightarrow> Raise True e | Inr d \<Rightarrow> Return True d)
          else Continue s')"
    using wrap nowrap
    by (simp add: place_page_step [OF cols cur] su gpi Let_def s'_def out'_def split: option.split)
  with inv' show ?thesis by blast
qed

lemma pages_needed_0 [simp]: "pages_needed 0 n = 0"
  by (cases n) (simp_all add: pages_needed_def)

lemma placed_inv_init: "placed_inv env [] init_state"
  by (simp add: placed_inv_def init_state_def placements_def expected_placements_def)

lemma place_all_snoc:
  "place_all lib env (xs @ [(path, pno, sp)]) s =
     then_loop (place_all lib env xs s) (place_page lib env path pno sp)"
proof -
  have "place_all lib env [(path, pno, sp)] = place_page lib env path pno sp"
    by (rule ext) (auto simp: then_loop_def split: loop_res.splits)
  then show ?thesis by (simp add: place_all_append)
qed

lemma items_accepted_Nil [simp]: "items_accepted lib env []"
  by (simp add: items_accepted_def)

lemma items_accepted_snoc:
  "items_accepted lib env (items @ [it]) \<longleftrightarrow>
     items_accepted lib env items \<and>
     item_raises lib env (length items) (int (length items mod nat (e_total_slots env))) it = None"
  by (simp add: items_accepted_def enumerate_append_eq)

lemma items_accepted_append:
  "items_accepted lib env (xs @ ys) \<Longrightarrow> items_accepted lib env xs"
  by (simp add: items_accepted_def enumerate_append_eq)

text \<open>While no completed page count hits the bound, the loop runs on without returning
  as long as the library accepts the drawing calls, and ends in the exception of the first
  call it rejects.\<close>

lemma place_all_outcome:
  assumes n: "1 \<le> e_total_slots env" and cols: "e_cols env \<noteq> 0"
    and nostop: "\<forall>j. 1 \<le> j \<and> j \<le> length items \<and> j mod nat (e_total_slots env) = 0
                   \<longrightarrow> \<not> stop_hit env (j div nat (e_total_slots env))"
  shows "(items_accepted lib env items \<and>
          (\<exists>s. place_all lib env items init_state = Continue s \<and> placed_inv env items s)) \<or>
         (\<not> items_accepted lib env items \<and>
          (\<exists>e. place_all lib env items init_state = Raise False e))"
  using nostop
proof (induction items rule: rev_induct)
  case Nil
  show ?case using placed_inv_init by simp
next
  case (snoc it items)
  obtain path pno sp where it: "it = (path, pno, sp)" by (cases it) auto
  have "\<forall>j. 1 \<le> j \<and> j \<le> length items \<and> j mod nat (e_total_slots env) = 0
           \<longrightarrow> \<not> stop_hit env (j div nat (e_total_slots env))"
    using snoc.prems by simp
  from snoc.IH [OF this] show ?case
  proof (elim disjE conjE exE)
    fix e
    assume "\<not> items_accepted lib env items" "place_all lib env items init_state = Raise False e"
    then show ?thesis by (simp add: it place_all_snoc items_accepted_snoc)
  next
    fix s
    assume acc: "items_accepted lib env items"
      and run: "place_all lib env items init_state = Continue s" and inv: "placed_inv env items s"
    from place_page_inv [OF inv n cols, of path pno sp lib] obtain s' where
      inv': "placed_inv env (items @ [(path, pno, sp)]) s'"
      and step: "place_page lib env path pno sp s =
             (case item_raises lib env (length items) (int (length items mod nat (e_total_slots env)))
                     (path, pno, sp) of
                Some e \<Rightarrow> Raise False e
              | None \<Rightarrow>
                 if Suc (length items) mod nat (e_total_slots env) = 0 \<and> stop_hit env (length (out s'))
                 then (case stamp_footers lib (e_params env) (out s') of
                         Inl e \<Rightarrow> Raise True e | Inr d \<Rightarrow> Return True d)
                 else Continue s')" by blast
    have ns: "\<not> (Suc (length items) mod nat (e_total_slots env) = 0 \<and> stop_hit env (length (out s')))"
    proof
      assume a: "Suc (length items) mod nat (e_total_slots env) = 0 \<and> stop_hit env (length (out s'))"
      have "length (out s') = Suc (length items) div nat (e_total_slots env)"
        using inv' n a by (simp add: placed_inv_def pages_needed_mod0)
      with a snoc.prems [rule_format, of "Suc (length items)"] show False by simp
    qed
    show ?thesis
    proof (cases "item_raises lib env (length items) (int (length items mod nat (e_total_slots env)))
                     (path, pno, sp)")
      case None
      with step ns have "place_page lib env path pno sp s = Continue s'" by simp
      with run inv' acc None show ?thesis by (simp add: it place_all_snoc items_accepted_snoc)
    next
      case (Some e)
      with step have "place_page lib env path pno sp s = Raise False e" by simp
      with run Some show ?thesis by (simp add: it place_all_snoc items_accepted_snoc)
    qed
  qed
qed

lemma place_all_return:
  assumes n: "1 \<le> e_total_slots env" and cols: "e_cols env \<noteq> 0"
    and nostop: "\<forall>j. 1 \<le> j \<and> j \<le> length xs \<and> j mod nat (e_total_slots env) = 0
                   \<longrightarrow> \<not> stop_hit env (j div nat (e_total_slots env))"
    and full: "Suc (length xs) mod nat (e_total_slots env) = 0"
    and hit: "stop_hit env (Suc (length xs) div nat (e_total_slots env))"
    and acc: "items_accepted lib env (xs @ [x])"
  shows "\<exists>s. placed_inv env (xs @ [x]) s \<and>
           place_all lib env (xs @ x # ys) init_state =
             (case stamp_footers lib (e_params env) (out s) of
                Inl e \<Rightarrow> Raise True e | Inr d \<Rightarrow> Return True d)"
proof -
  obtain path pno sp where x: "x = (path, pno, sp)" by (cases x) auto
  from acc have accx: "items_accepted lib env xs"
    and accl: "item_raises lib env (length xs) (int (length xs mod nat (e_total_slots env))) (path, pno, sp) = None"
    by (simp_all add: items_accepted_snoc x)
  from place_all_outcome [OF n cols nostop, of lib] accx obtain s where
    run: "place_all lib env xs init_state = Continue s" and inv: "placed_inv env xs s" by blast
  from place_page_inv [OF inv n cols, of path pno sp lib] obtain s' where
    inv': "placed_inv env (xs @ [(path, pno, sp)]) s'"
    and step: "place_page lib env path pno sp s =
             (case item_raises lib env (length xs) (int (length xs mod nat (e_total_slots env)))
                     (path, pno, sp) of
                Some e \<Rightarrow> Raise False e
              | None \<Rightarrow>
                 if Suc (length xs) mod nat (e_total_slots env) = 0 \<and> stop_hit env (length (out s'))
                 then (case stamp_footers lib (e_params env) (out s') of
                         Inl e \<Rightarrow> Raise True e | Inr d \<Rightarrow> Return True d)
                 else Continue s')" by blast
  have "length (out s') = Suc (length xs) div nat (e_total_slots env)"
    using inv' n full by (simp add: placed_inv_def pages_needed_mod0)
  with step full hit accl have st: "place_page lib env path pno sp s =
      (case stamp_footers lib (e_params env) (out s') of
         Inl e \<Rightarrow> Raise True e | Inr d \<Rightarrow> Return True d)"
    by simp
  have "place_all lib env (xs @ x # ys) init_state
      = then_loop (then_loop (place_all lib env xs init_state) (place_page lib env path pno sp))
          (place_all lib env ys)"
    using place_all_append [of lib env "xs @ [x]" ys init_state] by (simp add: x place_all_snoc)
  also have "\<dots> = (case stamp_footers lib (e_params env) (out s') of
         Inl e \<Rightarrow> Raise True e | Inr d \<Rightarrow> Return True d)"
    by (simp add: run st split: sum.splits)
  finally show ?thesis using inv' x by blast
qed

lemma candidates_pos: "\<forall>rc \<in> set CANDIDATE_GRIDS. 1 \<le> fst rc \<and> 1 \<le> snd rc"
  by (simp add: CANDIDATE_GRIDS_def)

lemma effective_grid_pos:
  assumes "valid_layout params"
  shows "1 \<le> fst (effective_grid params) \<and> 1 \<le> snd (effective_grid params)"
proof (cases "auto_readable (layout params)")
  case True
  then have "effective_grid params \<in> set CANDIDATE_GRIDS"
    by (simp add: effective_grid_def choose_auto_grid_candidate)
  with candidates_pos show ?thesis by blast
next
  case False
  with assms show ?thesis by (simp add: valid_layout_def effective_grid_def)
qed

lemma make_env_valid:
  assumes "valid_layout params"
  shows "\<exists>env. make_env params stop = Inr env \<and> e_cols env \<noteq> 0 \<and> 1 \<le> e_total_slots env \<and>
           e_params env = params \<and> e_stop_after_pages env = stop \<and>
           nat (e_total_slots env) = grid_slots params"
proof -
  obtain r c where g: "effective_grid params = (r, c)" by (cases "effective_grid params")
  with effective_grid_pos [OF assms] have r: "1 \<le> r" and c: "1 \<le> c" by simp_all
  then have "1 \<le> r * c" by (simp add: mult_le_cancel_left1 order_trans [OF _ mult_left_mono [of 1 c r]])
  with r c g show ?thesis
    by (simp add: make_env_def Let_def grid_slots_def slot_count_def split: prod.splits)
qed

lemma make_env_stop:
  "make_env params None = Inr env \<Longrightarrow>
   make_env params stop = Inr (env\<lparr>e_stop_after_pages := stop\<rparr>)"
  by (auto simp: make_env_def Let_def split: prod.splits if_splits)

lemma build_unfold:
  "make_env params stop = Inr env \<Longrightarrow>
   build_nup_from_multiple lib fs src_files params stop =
     (case place_all lib env (all_items fs src_files) init_state of
        Raise c e \<Rightarrow> Inl (if c then ValueError ''document closed'' else e)
      | Return c d \<Rightarrow> (if c then Inl (ValueError ''document closed'') else Inr d)
      | Continue s \<Rightarrow> stamp_footers lib params (out s))"
  by (simp add: build_nup_from_multiple_def place_files_flat after_finally_def
           split: loop_res.splits)

lemma stop_hit_None [simp]: "e_stop_after_pages env = None \<Longrightarrow> \<not> stop_hit env len"
  by (simp add: stop_hit_def)

text \<open>Without a bound the build is the footer pass over the pages of the finished
  placement, or ends in the exception of the first drawing call the library rejects.\<close>

lemma build_nostop:
  assumes v: "valid_layout params" and env: "make_env params None = Inr env"
  shows "(items_accepted lib env (all_items fs src_files) \<and>
          (\<exists>s. place_all lib env (all_items fs src_files) init_state = Continue s \<and>
             placed_inv env (all_items fs src_files) s \<and>
             build_nup_from_multiple lib fs src_files params None = stamp_footers lib params (out s))) \<or>
         (\<not> items_accepted lib env (all_items fs src_files) \<and>
          (\<exists>e. build_nup_from_multiple lib fs src_files params None = Inl e))"
proof -
  from make_env_valid [OF v, of None] env
  have cols: "e_cols env \<noteq> 0" and n: "1 \<le> e_total_slots env" and st: "e_stop_after_pages env = None"
    by auto
  have ns: "\<forall>j. 1 \<le> j \<and> j \<le> length (all_items fs src_files) \<and> j mod nat (e_total_slots env) = 0
                   \<longrightarrow> \<not> stop_hit env (j div nat (e_total_slots env))"
    using st by simp
  from place_all_outcome [OF n cols ns, of lib] show ?thesis
    by (auto simp: build_unfold [OF env])
qed

lemma build_Inr_nostop:
  assumes v: "valid_layout params" and env: "make_env params None = Inr env"
    and doc: "build_nup_from_multiple lib fs src_files params None = Inr doc"
  shows "\<exists>s. place_all lib env (all_items fs src_files) init_state = Continue s \<and>
           placed_inv env (all_items fs src_files) s \<and>
           items_accepted lib env (all_items fs src_files) \<and>
           stamp_footers lib params (out s) = Inr doc \<and> doc = with_footers params (out s)"
proof -
  from build_nostop [OF v env, of lib fs src_files] doc obtain s where
    "place_all lib env (all_items fs src_files) init_state = Continue s"
    "placed_inv env (all_items fs src_files) s" "items_accepted lib env (all_items fs src_files)"
    "stamp_footers lib params (out s) = Inr doc"
    by auto
  moreover from this(4) have "doc = with_footers params (out s)" by (rule stamp_footers_Inr)
  ultimately show ?thesis by blast
qed

text \<open>The build returns a document when the library accepts the drawing calls for every
  source page and a text box in the footer rectangle of the paper.\<close>

lemma build_succeeds:
  assumes v: "valid_layout params" and env: "make_env params None = Inr env"
    and acc: "items_accepted lib env (all_items fs src_files)"
    and foot: "\<And>t. draw_page_numbers params \<Longrightarrow>
       insert_textbox_raises lib (footer_rect (new_page (e_page_w env) (e_page_h env))) t
         (page_number_font_pt params) = None"
  shows "\<exists>s. placed_inv env (all_items fs src_files) s \<and>
           build_nup_from_multiple lib fs src_files params None = Inr (with_footers params (out s))"
proof -
  from build_nostop [OF v env, of lib fs src_files] acc obtain s where
    inv: "placed_inv env (all_items fs src_files) s"
    and b: "build_nup_from_multiple lib fs src_files params None = stamp_footers lib params (out s)"
    by auto
  have "stamp_footers lib params (out s) = Inr (with_footers params (out s))"
  proof (rule stamp_footers_accepted)
    fix pg t
    assume pg: "pg \<in> set (out s)" and d: "draw_page_numbers params"
    from inv pg have "pg_width pg = e_page_w env \<and> pg_height pg = e_page_h env"
      by (simp add: placed_inv_def list_all_iff)
    then have "footer_rect pg = footer_rect (new_page (e_page_w env) (e_page_h env))"
      by (simp add: footer_rect_def new_page_def)
    with foot [OF d, of t]
    show "insert_textbox_raises lib (footer_rect pg) t (page_number_font_pt params) = None"
      by simp
  qed
  with inv b show ?thesis by auto
qed

lemma length_with_footers [simp]: "length (with_footers params doc) = length doc"
  by (simp add: with_footers_def)

lemma nth_with_footers:
  "p < length doc \<Longrightarrow>
   with_footers params doc ! p = with_footer params (doc ! p) (Suc p) (length doc)"
  by (simp add: with_footers_def nth_enumerate_eq)

lemma page_placements_footer [simp]:
  "page_placements (with_footer params pg i tot) = page_placements pg"
  by (simp add: with_footer_def draw_def page_placements_def)

lemma placements_map_enumerate:
  assumes "\<And>i pg. page_placements (f i pg) = page_placements pg"
  shows "concat (map (\<lambda>(j, pg). map (Pair j) (page_placements pg))
                     (enumerate m (map (\<lambda>(i, pg). f i pg) (enumerate m doc)))) =
         concat (map (\<lambda>(j, pg). map (Pair j) (page_placements pg)) (enumerate m doc))"
  by (induction doc arbitrary: m) (simp_all add: assms)

lemma placements_with_footers [simp]: "placements (with_footers params doc) = placements doc"
  unfolding placements_def with_footers_def
  by (rule placements_map_enumerate) simp
section \<open>Page compositor: properties of the build\<close>

lemma with_footer_trim [simp]:
  "with_footer (params\<lparr>trim_whitespace := b\<rparr>) = with_footer params"
  by (intro ext) (simp add: with_footer_def)

lemma draw_page_number_footer_trim [simp]:
  "draw_page_number_footer lib (params\<lparr>trim_whitespace := b\<rparr>) = draw_page_number_footer lib params"
  by (intro ext) (simp add: draw_page_number_footer_def)

lemma stamp_from_trim [simp]:
  "stamp_from lib (params\<lparr>trim_whitespace := b\<rparr>) tot i doc = stamp_from lib params tot i doc"
  by (induction doc arbitrary: i) (simp_all split: sum.splits)

lemma stamp_footers_trim [simp]:
  "stamp_footers lib (params\<lparr>trim_whitespace := b\<rparr>) doc = stamp_footers lib params doc"
  by (simp add: stamp_footers_def)

lemma slot_rect_params [simp]: "slot_rect (env\<lparr>e_params := p\<rparr>) slot = slot_rect env slot"
  by (simp add: slot_rect_def)

text \<open>A page for which the estimator returns the native rectangle goes through the loop
  body as it does with trimming switched off.\<close>

lemma place_page_trim_off:
  assumes "estimate_content_clip sp (trim_threshold (e_params env)) = page_rect sp"
  shows "place_page lib (env\<lparr>e_params := (e_params env)\<lparr>trim_whitespace := False\<rparr>\<rparr>) path pno sp s =
         place_page lib env path pno sp s"
  using assms
  by (simp add: place_page_def Let_def
           cong: sum.case_cong option.case_cong if_cong)

lemma place_all_trim_off:
  assumes "\<forall>it \<in> set items.
     estimate_content_clip (snd (snd it)) (trim_threshold (e_params env)) = page_rect (snd (snd it))"
  shows "place_all lib (env\<lparr>e_params := (e_params env)\<lparr>trim_whitespace := False\<rparr>\<rparr>) items s =
         place_all lib env items s"
  using assms
proof (induction items arbitrary: s)
  case Nil
  show ?case by simp
next
  case (Cons it items)
  have "place_all lib (env\<lparr>e_params := (e_params env)\<lparr>trim_whitespace := False\<rparr>\<rparr>) items =
        place_all lib env items"
    by (rule ext) (rule Cons.IH, use Cons.prems in simp)
  moreover have "estimate_content_clip (snd (snd it)) (trim_threshold (e_params env)) = page_rect (snd (snd it))"
    using Cons.prems by simp
  ultimately show ?case by (simp add: place_page_trim_off)
qed

lemma effective_grid_trim [simp]:
  "effective_grid (params\<lparr>trim_whitespace := b\<rparr>) = effective_grid params"
  by (simp add: effective_grid_def)

lemma make_env_trim:
  "make_env (params\<lparr>trim_whitespace := b\<rparr>) stop =
     (case make_env params stop of Inl e \<Rightarrow> Inl e
      | Inr env \<Rightarrow> Inr (env\<lparr>e_params := (e_params env)\<lparr>trim_whitespace := b\<rparr>\<rparr>))"
  by (simp add: make_env_def Let_def split: prod.splits)

lemma make_env_params: "make_env params stop = Inr env \<Longrightarrow> e_params env = params"
  by (auto simp: make_env_def Let_def split: prod.splits if_splits)

lemma build_trim_off:
  assumes "\<forall>it \<in> set (all_items fs src_files).
     estimate_content_clip (snd (snd it)) (trim_threshold params) = page_rect (snd (snd it))"
  shows "build_nup_from_multiple lib fs src_files (params\<lparr>trim_whitespace := False\<rparr>) stop =
         build_nup_from_multiple lib fs src_files params stop"
proof (cases "make_env params stop")
  case (Inl e)
  then show ?thesis by (simp add: build_nup_from_multiple_def make_env_trim)
next
  case (Inr env)
  then have p: "e_params env = params" by (rule make_env_params)
  with assms have t: "\<forall>it \<in> set (all_items fs src_files).
     estimate_content_clip (snd (snd it)) (trim_threshold (e_params env)) = page_rect (snd (snd it))"
    by simp
  have e: "make_env (params\<lparr>trim_whitespace := False\<rparr>) stop =
        Inr (env\<lparr>e_params := (e_params env)\<lparr>trim_whitespace := False\<rparr>\<rparr>)"
    by (simp add: make_env_trim Inr)
  show ?thesis
    by (simp add: build_unfold [OF e] build_unfold [OF Inr] place_all_trim_off [OF t]
             split: loop_res.splits)
qed

lemma gives_up_page_rect:
  assumes "gives_up sp t"
  shows "estimate_content_clip sp t = page_rect sp"
proof (cases "get_pixmap sp")
  case (Inl e)
  then show ?thesis by (rule estimate_content_clip_raster_fails)
next
  case (Inr pix)
  with assms have "nonwhite_bbox_pixmap pix t = None"
    using nonwhite_bbox_pixmap_blank [of pix t]
    by (auto simp: gives_up_def nonwhite_bbox_pixmap_def split: sum.splits)
  with Inr show ?thesis by (rule estimate_content_clip_no_bbox)
qed

text \<open>The example documents on the example grid: the library accepts every drawing call,
  and the build returns two pages for the documents of three and two pages, one page for
  the document of three pages.\<close>

lemma example_build_pages:
  "map_sum id length
     (build_nup_from_multiple pymupdf example_fs [''D1.pdf'', ''D2.pdf''] example_params None) = Inr 2"
  by code_simp

lemma example_build:
  "\<exists>doc. build_nup_from_multiple pymupdf example_fs [''D1.pdf'', ''D2.pdf''] example_params None = Inr doc"
  using example_build_pages
  by (cases "build_nup_from_multiple pymupdf example_fs [''D1.pdf'', ''D2.pdf''] example_params None")
     simp_all

lemma example_build_D3_pages:
  "map_sum id length
     (build_nup_from_multiple pymupdf example_fs [''D3.pdf''] example_params None) = Inr 1"
  by code_simp

lemma example_build_D3:
  "\<exists>doc. build_nup_from_multiple pymupdf example_fs [''D3.pdf''] example_params None = Inr doc"
  using example_build_D3_pages
  by (cases "build_nup_from_multiple pymupdf example_fs [''D3.pdf''] example_params None")
     simp_all

text \<open>A valid layout does not make the build succeed: on the grid of one row and ten
  columns with 50 mm margin and 30 mm gap the cells have negative width, and the first
  \<^verbatim>\<open>show_pdf_page\<close> raises.\<close>

lemma narrow_build_raises:
  "valid_layout narrow_params \<and>
   build_nup_from_multiple pymupdf example_fs [''D1.pdf''] narrow_params None =
     Inl (ValueError ''rect must be finite and not empty'')"
  by code_simp

text \<open>
  Claim C6. The estimator fails open: if rasterization raises, if the bounding-box scan
  raises, or if the scan finds no pixel whose minimum channel value is below the threshold,
  \<open>estimate_content_clip\<close> returns exactly the page's native rectangle. No such failure
  aborts the build or changes it otherwise: the loop body treats a page on which the
  estimator gives up exactly as it does with trimming switched off, where the estimator is
  not called at all, and a build from documents on all of whose pages the estimator gives
  up has the very outcome of the build with trimming switched off.
\<close>

theorem estimate_content_clip_fails_open:
  "(get_pixmap sp = Inl e \<longrightarrow> estimate_content_clip sp t = page_rect sp) \<and>
   (get_pixmap sp = Inr pix \<and> nonwhite_bbox_try pix t = Inl e \<longrightarrow>
      estimate_content_clip sp t = page_rect sp) \<and>
   (get_pixmap sp = Inr pix \<and> blank_pixmap pix t \<longrightarrow> estimate_content_clip sp t = page_rect sp) \<and>
   (gives_up sp (trim_threshold (e_params env)) \<longrightarrow>
      place_page lib env path pno sp s =
      place_page lib (env\<lparr>e_params := (e_params env)\<lparr>trim_whitespace := False\<rparr>\<rparr>) path pno sp s) \<and>
   ((\<forall>it \<in> set (all_items fs src_files). gives_up (snd (snd it)) (trim_threshold params)) \<longrightarrow>
      build_nup_from_multiple lib fs src_files params stop =
      build_nup_from_multiple lib fs src_files (params\<lparr>trim_whitespace := False\<rparr>) stop)"
proof (intro conjI impI)
  assume "get_pixmap sp = Inl e"
  then show "estimate_content_clip sp t = page_rect sp"
    by (rule estimate_content_clip_raster_fails)
next
  assume a: "get_pixmap sp = Inr pix \<and> nonwhite_bbox_try pix t = Inl e"
  then have "nonwhite_bbox_pixmap pix t = None" by (simp add: nonwhite_bbox_pixmap_def)
  with a show "estimate_content_clip sp t = page_rect sp"
    by (simp add: estimate_content_clip_no_bbox)
next
  assume a: "get_pixmap sp = Inr pix \<and> blank_pixmap pix t"
  then have "nonwhite_bbox_pixmap pix t = None" by (simp add: nonwhite_bbox_pixmap_blank)
  with a show "estimate_content_clip sp t = page_rect sp"
    by (simp add: estimate_content_clip_no_bbox)
next
  assume "gives_up sp (trim_threshold (e_params env))"
  then have "estimate_content_clip sp (trim_threshold (e_params env)) = page_rect sp"
    by (rule gives_up_page_rect)
  then show "place_page lib env path pno sp s =
      place_page lib (env\<lparr>e_params := (e_params env)\<lparr>trim_whitespace := False\<rparr>\<rparr>) path pno sp s"
    by (simp add: place_page_trim_off)
next
  assume "\<forall>it \<in> set (all_items fs src_files). gives_up (snd (snd it)) (trim_threshold params)"
  then have "\<forall>it \<in> set (all_items fs src_files).
     estimate_content_clip (snd (snd it)) (trim_threshold params) = page_rect (snd (snd it))"
    by (simp add: gives_up_page_rect)
  then show "build_nup_from_multiple lib fs src_files params stop =
      build_nup_from_multiple lib fs src_files (params\<lparr>trim_whitespace := False\<rparr>) stop"
    by (simp add: build_trim_off)
qed

lemma example_items_D3:
  "all_items example_fs [''D3.pdf''] =
     [(''D3.pdf'', 0, unrenderable_page), (''D3.pdf'', 1, gray_page), (''D3.pdf'', 2, white_page)]"
  by (simp add: all_items_def doc_items_def example_fs_def enumerate_eq_zip upt_rec [of 0])

theorem estimate_content_clip_fails_open_witness:
  "get_pixmap unrenderable_page = Inl (RuntimeError ''cannot render'') \<and>
   estimate_content_clip unrenderable_page 245 = page_rect unrenderable_page \<and>
   get_pixmap gray_page = Inr gray_pixmap \<and> nonwhite_bbox_try gray_pixmap 245 = Inl IndexError \<and>
   estimate_content_clip gray_page 245 = page_rect gray_page \<and>
   get_pixmap white_page = Inr white_pixmap \<and> blank_pixmap white_pixmap 245 \<and>
   estimate_content_clip white_page 245 = page_rect white_page \<and>
   gives_up unrenderable_page 245 \<and> gives_up gray_page 245 \<and> gives_up white_page 245 \<and>
   place_page pymupdf \<lparr>e_params = example_params, e_stop_after_pages = None, e_page_w = 595,
       e_page_h = 842, e_cols = 2, e_margin = 28, e_gap = 11, e_cell_w = 264, e_cell_h = 387,
       e_total_slots = 4\<rparr> ''D3.pdf'' 0 unrenderable_page init_state =
     place_page pymupdf \<lparr>e_params = example_params\<lparr>trim_whitespace := False\<rparr>,
       e_stop_after_pages = None, e_page_w = 595,
       e_page_h = 842, e_cols = 2, e_margin = 28, e_gap = 11, e_cell_w = 264, e_cell_h = 387,
       e_total_slots = 4\<rparr> ''D3.pdf'' 0 unrenderable_page init_state \<and>
   build_nup_from_multiple pymupdf example_fs [''D3.pdf''] example_params None =
     build_nup_from_multiple pymupdf example_fs [''D3.pdf''] (example_params\<lparr>trim_whitespace := False\<rparr>)
       None \<and>
   (\<exists>doc. build_nup_from_multiple pymupdf example_fs [''D3.pdf''] example_params None = Inr doc)"
proof -
  let ?env = "\<lparr>e_params = example_params, e_stop_after_pages = None, e_page_w = 595,
       e_page_h = 842, e_cols = 2, e_margin = 28, e_gap = 11, e_cell_w = 264, e_cell_h = 387,
       e_total_slots = 4\<rparr>"
  have t: "trim_threshold example_params = 245" by (simp add: example_params_def)
  have te: "trim_threshold (e_params ?env) = 245" by (simp add: example_params_def)
  have a: "get_pixmap unrenderable_page = Inl (RuntimeError ''cannot render'')"
    by (simp add: unrenderable_page_def)
  have b: "get_pixmap gray_page = Inr gray_pixmap" by (simp add: gray_page_def)
  have b': "nonwhite_bbox_try gray_pixmap 245 = Inl IndexError" by code_simp
  have c: "get_pixmap white_page = Inr white_pixmap" by (simp add: white_page_def)
  have c': "blank_pixmap white_pixmap 245" by code_simp
  have g1: "gives_up unrenderable_page 245" by (simp add: gives_up_def a)
  have g2: "gives_up gray_page 245" by (simp add: gives_up_def b b')
  have g3: "gives_up white_page 245" by code_simp
  have all: "\<forall>it \<in> set (all_items example_fs [''D3.pdf'']).
      gives_up (snd (snd it)) (trim_threshold example_params)"
    by (simp add: example_items_D3 t g1 g2 g3)
  have g1': "gives_up unrenderable_page (trim_threshold (e_params ?env))"
    using g1 by (simp only: te)
  note X = estimate_content_clip_fails_open
  have 1: "estimate_content_clip unrenderable_page 245 = page_rect unrenderable_page"
    using a X [of unrenderable_page "RuntimeError ''cannot render''" 245] by blast
  have 2: "estimate_content_clip gray_page 245 = page_rect gray_page"
    using b b' X [of gray_page IndexError 245 gray_pixmap] by blast
  have 3: "estimate_content_clip white_page 245 = page_rect white_page"
    using c c' X [of white_page _ 245 white_pixmap] by blast
  have 4: "place_page pymupdf ?env ''D3.pdf'' 0 unrenderable_page init_state =
      place_page pymupdf (?env\<lparr>e_params := (e_params ?env)\<lparr>trim_whitespace := False\<rparr>\<rparr>)
        ''D3.pdf'' 0 unrenderable_page init_state"
    by (rule mp [OF X [of unrenderable_page _ _ _ ?env pymupdf "''D3.pdf''" 0 init_state,
                   THEN conjunct2, THEN conjunct2, THEN conjunct2, THEN conjunct1] g1'])
  have 5: "build_nup_from_multiple pymupdf example_fs [''D3.pdf''] example_params None =
     build_nup_from_multiple pymupdf example_fs [''D3.pdf''] (example_params\<lparr>trim_whitespace := False\<rparr>)
       None"
    by (rule mp [OF X [of _ _ _ _ _ pymupdf _ _ _ example_fs "[''D3.pdf'']" example_params None,
                   THEN conjunct2, THEN conjunct2, THEN conjunct2, THEN conjunct2] all])
  from 4 have p4: "place_page pymupdf ?env ''D3.pdf'' 0 unrenderable_page init_state =
     place_page pymupdf \<lparr>e_params = example_params\<lparr>trim_whitespace := False\<rparr>,
       e_stop_after_pages = None, e_page_w = 595,
       e_page_h = 842, e_cols = 2, e_margin = 28, e_gap = 11, e_cell_w = 264, e_cell_h = 387,
       e_total_slots = 4\<rparr> ''D3.pdf'' 0 unrenderable_page init_state"
    by simp
  show ?thesis
    by (intro conjI a b b' c c' g1 g2 g3 1 2 3 p4 5 example_build_D3)
qed

lemma expected_placements_append:
  "expected_placements env (xs @ ys) =
   expected_placements env xs @
     map (\<lambda>(i, it). (i div nat (e_total_slots env), slot_rect env (int (i mod nat (e_total_slots env))),
                      fst it, fst (snd it), clip_of (e_params env) (snd (snd it))))
         (enumerate (length xs) ys)"
  by (simp add: expected_placements_def Let_def enumerate_append_eq)

lemma length_expected_placements [simp]: "length (expected_placements env xs) = length xs"
  by (simp add: expected_placements_def Let_def)

lemma expected_placements_take:
  "expected_placements env (take m xs) = take m (expected_placements env xs)"
proof (cases "m \<le> length xs")
  case True
  have "expected_placements env xs = expected_placements env (take m xs @ drop m xs)" by simp
  also have "take m \<dots> = expected_placements env (take m xs)"
    unfolding expected_placements_append using True by simp
  finally show ?thesis by simp
next
  case False
  then show ?thesis by simp
qed

lemma expected_placements_stop [simp]:
  "expected_placements (env\<lparr>e_stop_after_pages := stop\<rparr>) xs = expected_placements env xs"
  by (simp add: expected_placements_def slot_rect_def)



lemma example_valid: "valid_layout example_params"
  by code_simp

lemma example_slots: "grid_slots example_params = 4"
  by code_simp

lemma example_items:
  "all_items example_fs [''D1.pdf'', ''D2.pdf''] =
     [(''D1.pdf'', 0, ink_page), (''D1.pdf'', 1, white_page), (''D1.pdf'', 2, gray_page),
      (''D2.pdf'', 0, unrenderable_page), (''D2.pdf'', 1, ink_page)]"
  by (simp add: all_items_def doc_items_def example_fs_def enumerate_eq_zip upt_rec [of 0])


lemma all_items_skip:
  "fs bad = None \<Longrightarrow> all_items fs (xs @ bad # ys) = all_items fs (xs @ ys)"
  by (simp add: all_items_def doc_items_def)

lemma build_via_items:
  "all_items fs files1 = all_items fs files2 \<Longrightarrow>
   build_nup_from_multiple lib fs files1 params stop = build_nup_from_multiple lib fs files2 params stop"
  by (simp add: build_nup_from_multiple_def place_files_flat split: sum.splits)

text \<open>
  Claim C8. A path that fails to open is skipped and the build goes on with the remaining
  documents: with an unopenable path anywhere in the source list, the build has the very
  outcome it has for the list without that path. So whenever the build without the path
  returns a document, the build with the path returns the same document, with the same
  placements, page count, cell indices and footers.
\<close>

theorem unopenable_source_skipped:
  assumes "fs bad = None"
  shows "build_nup_from_multiple lib fs (xs @ bad # ys) params stop =
           build_nup_from_multiple lib fs (xs @ ys) params stop"
proof -
  have "all_items fs (xs @ bad # ys) = all_items fs (xs @ ys)"
    using assms by (rule all_items_skip)
  then show ?thesis by (rule build_via_items)
qed

theorem unopenable_source_skipped_witness:
  "example_fs ''corrupt.pdf'' = None \<and>
   build_nup_from_multiple pymupdf example_fs [''D1.pdf'', ''corrupt.pdf'', ''D2.pdf''] example_params None =
     build_nup_from_multiple pymupdf example_fs [''D1.pdf'', ''D2.pdf''] example_params None \<and>
   (\<exists>doc. build_nup_from_multiple pymupdf example_fs [''D1.pdf'', ''corrupt.pdf'', ''D2.pdf'']
            example_params None = Inr doc \<and> length doc = 2)"
proof -
  have bad: "example_fs ''corrupt.pdf'' = None" by (simp add: example_fs_def)
  have X: "build_nup_from_multiple pymupdf example_fs ([''D1.pdf''] @ ''corrupt.pdf'' # [''D2.pdf''])
             example_params None =
          build_nup_from_multiple pymupdf example_fs ([''D1.pdf''] @ [''D2.pdf'']) example_params None"
    using bad by (rule unopenable_source_skipped)
  have e1: "[''D1.pdf''] @ ''corrupt.pdf'' # [''D2.pdf''] = [''D1.pdf'', ''corrupt.pdf'', ''D2.pdf'']"
    and e2: "[''D1.pdf''] @ [''D2.pdf''] = [''D1.pdf'', ''D2.pdf'']" by simp_all
  note Y = X [unfolded e1 e2]
  from example_build obtain doc where
    doc: "build_nup_from_multiple pymupdf example_fs [''D1.pdf'', ''D2.pdf''] example_params None = Inr doc"
    by blast
  with example_build_pages have len: "length doc = 2" by simp
  have "\<exists>doc. build_nup_from_multiple pymupdf example_fs [''D1.pdf'', ''corrupt.pdf'', ''D2.pdf'']
            example_params None = Inr doc \<and> length doc = 2"
    by (rule exI [of _ doc]) (simp only: Y doc len simp_thms)
  with bad Y show ?thesis by (intro conjI)
qed

lemma all_items_empty:
  assumes "\<forall>path \<in> set src_files. fs path = None \<or> fs path = Some []"
  shows "all_items fs src_files = []"
  using assms by (induction src_files) (auto simp: all_items_def doc_items_def)

lemma stamp_footers_Nil [simp]: "stamp_footers lib params [] = Inr []"
  by (simp add: stamp_footers_def)

text \<open>
  Claim C9. For a valid layout (automatic grid, or at least one row and one column, as the
  data model requires), a build from an empty source list, or from a list whose paths do
  not open or open to documents without pages, returns the document with zero pages and
  raises no error.
\<close>

theorem empty_input_empty_document:
  assumes "valid_layout params"
    and "\<forall>path \<in> set src_files. fs path = None \<or> fs path = Some []"
  shows "build_nup_from_multiple lib fs src_files params stop = Inr []"
proof -
  from make_env_valid [OF assms(1), of stop] obtain env where
    env: "make_env params stop = Inr env" by blast
  show ?thesis
    by (simp add: build_unfold [OF env] all_items_empty [OF assms(2)] init_state_def)
qed

theorem empty_input_empty_document_witness:
  "valid_layout example_params \<and>
   build_nup_from_multiple pymupdf example_fs [] example_params None = Inr [] \<and>
   example_fs ''corrupt.pdf'' = None \<and>
   build_nup_from_multiple pymupdf example_fs [''corrupt.pdf''] example_params None = Inr []"
proof -
  have a: "\<forall>path \<in> set []. example_fs path = None \<or> example_fs path = Some []" by simp
  have c: "example_fs ''corrupt.pdf'' = None" by (simp add: example_fs_def)
  then have b: "\<forall>path \<in> set [''corrupt.pdf'']. example_fs path = None \<or> example_fs path = Some []"
    by simp
  from empty_input_empty_document [OF example_valid a, of pymupdf None]
    empty_input_empty_document [OF example_valid b, of pymupdf None] c example_valid
  show ?thesis by simp
qed

text \<open>
  Claim C4. Without an early-stop bound and with \<open>draw_page_numbers\<close> set, the build returns
  the pages of the finished placement pass, each with one more text box drawn last: on page
  \<open>p\<close> (counted from 1) the footer text is \<open>p / N\<close>, where \<open>N\<close> is the final number of output
  pages. That number is \<open>ceil (total source pages / (rows * cols))\<close>, so a trailing page that
  is only partly filled is kept and has its footer too.
\<close>

theorem footer_total_correct:
  assumes "valid_layout params" and "draw_page_numbers params"
    and "build_nup_from_multiple lib fs src_files params None = Inr doc"
  shows "length doc = pages_needed (length (all_items fs src_files)) (grid_slots params) \<and>
         (\<exists>env s. make_env params None = Inr env \<and>
            place_files lib fs env src_files init_state = Continue s \<and>
            length (out s) = length doc \<and>
            (\<forall>p < length doc.
               doc ! p = draw (InsertTextbox (footer_rect (out s ! p))
                                 (str_nat (Suc p) @ '' / '' @ str_nat (length doc))
                                 (page_number_font_pt params))
                              (out s ! p)))"
proof -
  from make_env_valid [OF assms(1), of None] obtain env where
    env: "make_env params None = Inr env" and n: "nat (e_total_slots env) = grid_slots params"
    by blast
  from build_Inr_nostop [OF assms(1) env assms(3)] obtain s where
    run: "place_all lib env (all_items fs src_files) init_state = Continue s"
    and inv: "placed_inv env (all_items fs src_files) s"
    and doc: "doc = with_footers params (out s)" by blast
  have run': "place_files lib fs env src_files init_state = Continue s"
    using run by (simp add: place_files_flat)
  have len: "length doc = pages_needed (length (all_items fs src_files)) (grid_slots params)"
    using inv by (simp add: doc placed_inv_def n)
  have foot: "doc ! p = draw (InsertTextbox (footer_rect (out s ! p))
                                 (str_nat (Suc p) @ '' / '' @ str_nat (length doc))
                                 (page_number_font_pt params)) (out s ! p)"
    if "p < length doc" for p
    using that assms(2)
    by (simp add: doc nth_with_footers with_footer_def footer_text_def)
  from env run' len foot show ?thesis by (auto simp: doc)
qed

lemma page_footer_draw [simp]: "page_footer (draw (InsertTextbox r t f) pg) = Some t"
  by (simp add: page_footer_def draw_def)

lemma example_draws: "draw_page_numbers example_params"
  by (simp add: example_params_def)

lemma str_nat_1: "str_nat (Suc 0) = ''1''" by code_simp
lemma str_nat_2: "str_nat (Suc (Suc 0)) = ''2''" by code_simp

theorem footer_total_correct_witness:
  "valid_layout example_params \<and> draw_page_numbers example_params \<and>
   (\<exists>doc. build_nup_from_multiple pymupdf example_fs [''D1.pdf'', ''D2.pdf''] example_params None = Inr doc \<and>
      map page_footer doc = [Some ''1 / 2'', Some ''2 / 2''])"
proof -
  from example_build obtain doc where
    doc: "build_nup_from_multiple pymupdf example_fs [''D1.pdf'', ''D2.pdf''] example_params None = Inr doc"
    by blast
  note X = footer_total_correct [OF example_valid example_draws doc]
  have len: "length doc = 2"
    using conjunct1 [OF X] by (simp add: example_items example_slots pages_needed_def)
  from conjunct2 [OF X] obtain env s where
    Y: "make_env example_params None = Inr env \<and>
        place_files pymupdf example_fs env [''D1.pdf'', ''D2.pdf''] init_state = Continue s \<and>
        length (out s) = length doc \<and>
        (\<forall>p < length doc.
               doc ! p = draw (InsertTextbox (footer_rect (out s ! p))
                                 (str_nat (Suc p) @ '' / '' @ str_nat (length doc))
                                 (page_number_font_pt example_params))
                              (out s ! p))"
    by (elim exE)
  note foot = Y [THEN conjunct2, THEN conjunct2, THEN conjunct2]
  have "\<exists>a b. doc = [a, b]"
    using len by (auto simp: numeral_2_eq_2 length_Suc_conv)
  then obtain a b where d: "doc = [a, b]" by blast
  from foot [rule_format, of 0] have "page_footer a = Some ''1 / 2''"
    by (simp add: d str_nat_1 str_nat_2)
  moreover from foot [rule_format, of 1] have "page_footer b = Some ''2 / 2''"
    by (simp add: d str_nat_1 str_nat_2)
  ultimately have "map page_footer doc = [Some ''1 / 2'', Some ''2 / 2'']"
    by (simp add: d)
  with doc have "\<exists>doc. build_nup_from_multiple pymupdf example_fs [''D1.pdf'', ''D2.pdf''] example_params None = Inr doc \<and>
      map page_footer doc = [Some ''1 / 2'', Some ''2 / 2'']" by (intro exI [of _ doc] conjI)
  with example_valid example_draws show ?thesis by (intro conjI)
qed

lemma estimate_content_clip_threshold_0: "estimate_content_clip sp 0 = page_rect sp"
proof (cases "get_pixmap sp")
  case (Inl e)
  then show ?thesis by (rule estimate_content_clip_raster_fails)
next
  case (Inr pix)
  then show ?thesis
    by (rule estimate_content_clip_no_bbox) (rule nonwhite_bbox_pixmap_blank [OF blank_pixmap_threshold_0])
qed

lemma build_trim0:
  assumes "trim_threshold params = 0"
  shows "build_nup_from_multiple lib fs src_files (params\<lparr>trim_whitespace := False\<rparr>) stop =
         build_nup_from_multiple lib fs src_files params stop"
  by (rule build_trim_off) (simp add: assms estimate_content_clip_threshold_0)

text \<open>
  Claim C10. With threshold 0 trimming does nothing: no byte is below 0, so
  \<open>nonwhite_bbox_pixmap\<close> returns no bounding box for any pixmap,
  \<open>estimate_content_clip\<close> returns the native rectangle of any page, and a build with
  \<open>trim_whitespace\<close> set and \<open>trim_threshold = 0\<close> has the same outcome, page for page and
  clip for clip, as the build with trimming switched off.
\<close>

theorem trim_threshold_zero_no_trim:
  "nonwhite_bbox_pixmap pix 0 = None \<and>
   estimate_content_clip sp 0 = page_rect sp \<and>
   (trim_whitespace params \<and> trim_threshold params = 0 \<longrightarrow>
      build_nup_from_multiple lib fs src_files params stop =
      build_nup_from_multiple lib fs src_files (params\<lparr>trim_whitespace := False\<rparr>) stop)"
  by (simp add: nonwhite_bbox_pixmap_blank [OF blank_pixmap_threshold_0]
        estimate_content_clip_threshold_0 build_trim0)

theorem trim_threshold_zero_no_trim_witness:
  "trim_whitespace example_params_t0 \<and> trim_threshold example_params_t0 = 0 \<and>
   nonwhite_bbox_pixmap ink_pixmap 0 = None \<and>
   estimate_content_clip ink_page 0 = page_rect ink_page \<and>
   build_nup_from_multiple pymupdf example_fs [''D1.pdf'', ''D2.pdf''] example_params_t0 None =
     build_nup_from_multiple pymupdf example_fs [''D1.pdf'', ''D2.pdf'']
       (example_params_t0\<lparr>trim_whitespace := False\<rparr>) None"
proof -
  have h: "trim_whitespace example_params_t0 \<and> trim_threshold example_params_t0 = 0"
    by (simp add: example_params_t0_def example_params_def)
  note X = trim_threshold_zero_no_trim [of ink_pixmap ink_page example_params_t0 pymupdf example_fs
      "[''D1.pdf'', ''D2.pdf'']" None]
  from X h show ?thesis by (intro conjI) simp_all
qed

lemma pages_needed_le:
  assumes "1 \<le> n" and "L \<le> k * n"
  shows "pages_needed L n \<le> k"
proof -
  have "L + n - 1 \<le> k * n + (n - 1)" using assms by arith
  then have "(L + n - 1) div n \<le> (k * n + (n - 1)) div n"
    by (rule div_le_mono)
  also have "\<dots> = k + (n - 1) div n"
    by (rule div_mult_self3) (use assms(1) in simp)
  also have "\<dots> = k" using assms(1) by simp
  finally show ?thesis by (simp add: pages_needed_def)
qed

lemma page_footer_stamped:
  assumes "draw_page_numbers params"
  shows "page_footer (with_footer params pg i tot) = Some (footer_text i tot)"
  using assms by (simp add: with_footer_def)

lemma map_page_footer_stamp:
  assumes "draw_page_numbers params"
  shows "map page_footer (with_footers params doc) =
         map (\<lambda>p. Some (footer_text (Suc p) (length doc))) [0 ..< length doc]"
  by (rule nth_equalityI) (simp_all add: nth_with_footers page_footer_stamped [OF assms])

lemma slot_rect_stop [simp]:
  "slot_rect (env\<lparr>e_stop_after_pages := stop\<rparr>) slot = slot_rect env slot"
  by (simp add: slot_rect_def)

lemma item_raises_stop [simp]:
  "item_raises lib (env\<lparr>e_stop_after_pages := stop\<rparr>) gpi slot it = item_raises lib env gpi slot it"
  by (simp add: item_raises_def split: option.split)

lemma items_accepted_stop [simp]:
  "items_accepted lib (env\<lparr>e_stop_after_pages := stop\<rparr>) items = items_accepted lib env items"
  by (simp add: items_accepted_def)

text \<open>
  The early stop, for bounds \<open>k \<ge> 1\<close>. When the build without a bound returns more than
  \<open>k\<close> output pages, the loop with \<open>stop_after_pages = k\<close> reaches the early return with
  exactly \<open>k\<close> pages, which hold the first \<open>k * rows * cols\<close> source pages in the same
  cells; it closes the source document and runs the footer pass. Whether that pass raises
  or the loop body gets to \<^verbatim>\<open>return out\<close>, the \<^verbatim>\<open>finally: src.close()\<close> then closes the
  closed document again, and the build ends in \<^verbatim>\<open>ValueError("document closed")\<close> instead
  of returning the truncated document.
\<close>

lemma early_stop_returns_then_raises:
  assumes v: "valid_layout params" and k: "1 \<le> k"
    and full: "build_nup_from_multiple lib fs src_files params None = Inr full"
    and more: "nat k < length full"
  shows "build_nup_from_multiple lib fs src_files params (Some k) = Inl (ValueError ''document closed'') \<and>
         (\<exists>env (s::build_state). make_env params (Some k) = Inr env \<and>
           place_all lib env (all_items fs src_files) init_state =
             (case stamp_footers lib params (out s) of
                Inl e \<Rightarrow> Raise True e | Inr d \<Rightarrow> Return True d) \<and>
           length (out s) = nat k \<and>
           placements (out s) = take (nat k * grid_slots params) (placements full) \<and>
           nat k * grid_slots params < length (placements full) \<and>
           (draw_page_numbers params \<longrightarrow>
              map page_footer (with_footers params (out s)) =
                map (\<lambda>p. Some (str_nat (Suc p) @ '' / '' @ str_nat (nat k))) [0 ..< nat k]))"
proof -
  let ?items = "all_items fs src_files"
  let ?n = "grid_slots params"
  let ?m = "nat k * ?n"
  from make_env_valid [OF v, of None] obtain env0 where
    env0: "make_env params None = Inr env0" and cols0: "e_cols env0 \<noteq> 0"
    and n0: "1 \<le> e_total_slots env0" and p0: "e_params env0 = params"
    and slots: "nat (e_total_slots env0) = ?n" by blast
  define envk where "envk = env0\<lparr>e_stop_after_pages := Some k\<rparr>"
  have envk: "make_env params (Some k) = Inr envk"
    unfolding envk_def using env0 by (rule make_env_stop)
  have colsk: "e_cols envk \<noteq> 0" and nk: "1 \<le> e_total_slots envk"
    and pk: "e_params envk = params" and slotsk: "nat (e_total_slots envk) = ?n"
    using cols0 n0 p0 slots by (simp_all add: envk_def)
  have n1: "1 \<le> ?n" using n0 slots by linarith
  from build_Inr_nostop [OF v env0 full] obtain sf where
    invf: "placed_inv env0 ?items sf" and fulleq: "full = with_footers params (out sf)"
    and acc0: "items_accepted lib env0 ?items" by blast
  have lenfull: "length full = pages_needed (length ?items) ?n"
    using invf by (simp add: fulleq placed_inv_def slots)
  have plfull: "placements full = expected_placements env0 ?items"
    using invf by (simp add: fulleq placed_inv_def)
  have L: "?m < length ?items"
  proof (rule ccontr)
    assume "\<not> ?m < length ?items"
    then have "pages_needed (length ?items) ?n \<le> nat k"
      using n1 by (intro pages_needed_le) simp_all
    with more lenfull show False by simp
  qed
  have kpos: "1 \<le> nat k" using k by simp
  have mpos: "1 \<le> ?m" using kpos n1 by (simp add: Suc_le_eq)
  have Sm: "Suc (?m - Suc 0) = ?m" using mpos by arith
  define xs where "xs = take (?m - 1) ?items"
  define x where "x = ?items ! (?m - 1)"
  define ys where "ys = drop ?m ?items"
  have lxs: "length xs = ?m - 1" using L by (simp add: xs_def)
  have split: "?items = xs @ x # ys"
    using id_take_nth_drop [of "?m - 1" ?items] L by (simp add: xs_def x_def ys_def Sm)
  have pre: "xs @ [x] = take ?m ?items"
    using take_Suc_conv_app_nth [of "?m - 1" ?items] L by (simp add: xs_def x_def Sm)
  have "items_accepted lib envk ((xs @ [x]) @ ys)"
    using acc0 by (simp add: envk_def split)
  then have acck: "items_accepted lib envk (xs @ [x])" by (rule items_accepted_append)
  have nostop: "\<forall>j. 1 \<le> j \<and> j \<le> length xs \<and> j mod nat (e_total_slots envk) = 0
                   \<longrightarrow> \<not> stop_hit envk (j div nat (e_total_slots envk))"
  proof (intro allI impI)
    fix j
    assume j: "1 \<le> j \<and> j \<le> length xs \<and> j mod nat (e_total_slots envk) = 0"
    then have "j < nat k * ?n" using lxs Sm by arith
    then have "j div ?n < nat k" using n1 by (simp add: div_less_iff_less_mult)
    then have "int (j div ?n) < k" using k by simp
    then show "\<not> stop_hit envk (j div nat (e_total_slots envk))"
      by (simp add: stop_hit_def envk_def slots)
  qed
  have fullpage: "Suc (length xs) mod nat (e_total_slots envk) = 0"
    by (simp add: lxs Sm slotsk)
  have hit: "stop_hit envk (Suc (length xs) div nat (e_total_slots envk))"
    using n1 k by (simp add: lxs Sm slotsk slots stop_hit_def envk_def)
  from place_all_return [OF nk colsk nostop fullpage hit acck, of ys] obtain s where
    inv: "placed_inv envk (xs @ [x]) s"
    and ret: "place_all lib envk (xs @ x # ys) init_state =
        (case stamp_footers lib (e_params envk) (out s) of
           Inl e \<Rightarrow> Raise True e | Inr d \<Rightarrow> Return True d)"
    by blast
  have r: "place_all lib envk (all_items fs src_files) init_state =
      (case stamp_footers lib params (out s) of Inl e \<Rightarrow> Raise True e | Inr d \<Rightarrow> Return True d)"
    using ret by (simp add: split [symmetric] pk)
  have b: "build_nup_from_multiple lib fs src_files params (Some k) = Inl (ValueError ''document closed'')"
    by (simp add: build_unfold [OF envk] r split: sum.splits)
  have "length (out s) = pages_needed ?m ?n"
    using inv by (simp add: placed_inv_def slotsk lxs Sm)
  also have "\<dots> = nat k" using n1 by (simp add: pages_needed_mod0)
  finally have len: "length (out s) = nat k" .
  have "placements (out s) = expected_placements envk (take ?m ?items)"
    using inv by (simp add: placed_inv_def pre)
  also have "\<dots> = take ?m (placements full)"
    by (simp add: plfull expected_placements_take envk_def)
  finally have pl: "placements (out s) = take ?m (placements full)" .
  have more': "?m < length (placements full)" using L by (simp add: plfull)
  have foot: "map page_footer (with_footers params (out s)) =
                map (\<lambda>p. Some (str_nat (Suc p) @ '' / '' @ str_nat (nat k))) [0 ..< nat k]"
    if "draw_page_numbers params"
    using map_page_footer_stamp [OF that, of "out s"] len
    by (simp add: footer_text_def)
  from envk r len pl more' foot
  have E: "make_env params (Some k) = Inr envk \<and>
           place_all lib envk (all_items fs src_files) init_state =
             (case stamp_footers lib params (out s) of
                Inl e \<Rightarrow> Raise True e | Inr d \<Rightarrow> Return True d) \<and>
           length (out s) = nat k \<and>
           placements (out s) = take (nat k * grid_slots params) (placements full) \<and>
           nat k * grid_slots params < length (placements full) \<and>
           (draw_page_numbers params \<longrightarrow>
              map page_footer (with_footers params (out s)) =
                map (\<lambda>p. Some (str_nat (Suc p) @ '' / '' @ str_nat (nat k))) [0 ..< nat k])"
    by simp
  have "\<exists>env (s::build_state). make_env params (Some k) = Inr env \<and>
           place_all lib env (all_items fs src_files) init_state =
             (case stamp_footers lib params (out s) of
                Inl e \<Rightarrow> Raise True e | Inr d \<Rightarrow> Return True d) \<and>
           length (out s) = nat k \<and>
           placements (out s) = take (nat k * grid_slots params) (placements full) \<and>
           nat k * grid_slots params < length (placements full) \<and>
           (draw_page_numbers params \<longrightarrow>
              map page_footer (with_footers params (out s)) =
                map (\<lambda>p. Some (str_nat (Suc p) @ '' / '' @ str_nat (nat k))) [0 ..< nat k])"
    by (intro exI) (rule E)
  with b show ?thesis by (rule conjI)
qed

text \<open>
  Claim C5. With an early-stop bound \<open>k\<close> that is reached, the build is to stop after \<open>k\<close>
  output pages and return them with footers \<open>p / k\<close>. The code does not return: for the
  documents of 3 and 2 pages on the 2 x 2 grid, where the full build returns two pages,
  the build with bound 1 ends in \<^verbatim>\<open>ValueError("document closed")\<close>.
\<close>

theorem early_stop_raises:
  "map_sum id length
     (build_nup_from_multiple pymupdf example_fs [''D1.pdf'', ''D2.pdf''] example_params None) = Inr 2 \<and>
   build_nup_from_multiple pymupdf example_fs [''D1.pdf'', ''D2.pdf''] example_params (Some 1) =
     Inl (ValueError ''document closed'')"
  by code_simp

end
